theory Spec2Isabelle
  imports Complex_Main
begin

section \<open>JavaScript numbers\<close>

text \<open>
  The value objects of the workshop's domain layer (\<^verbatim>\<open>employee-registration.ts\<close> and
  \<^verbatim>\<open>salary.ts\<close>) wrap a TypeScript \<^verbatim>\<open>number\<close>, that is an IEEE 754 binary64 value.
  A finite number is represented by its exact rational value; the two zeros are identified,
  because the classes never observe the sign of a zero (they only compare with \<^verbatim>\<open><\<close>,
  \<^verbatim>\<open><=\<close>, \<^verbatim>\<open>>\<close>, \<^verbatim>\<open>===\<close>, add, subtract, multiply, divide by the literal 100 and print).
\<close>

datatype number = NaN | PosInfinity | NegInfinity | Num rat

text \<open>
  \<open>largest_exp b x lo i\<close> is the largest exponent \<open>e\<close> in \<open>[lo, lo + 2 ^ i)\<close> with
  \<open>b powi e \<le> x\<close> (and \<open>lo\<close> when there is none), found by bisection.
\<close>

fun largest_exp :: "rat \<Rightarrow> rat \<Rightarrow> int \<Rightarrow> nat \<Rightarrow> int" where
  "largest_exp b x lo 0 = lo"
| "largest_exp b x lo (Suc i) =
     (if b powi (lo + 2 ^ i) \<le> x then largest_exp b x (lo + 2 ^ i) i else largest_exp b x lo i)"

text \<open>Rounding to the nearest integer, ties to the even one.\<close>

definition round_even :: "rat \<Rightarrow> int" where
  "round_even q = (let f = \<lfloor>q\<rfloor>; r = q - of_int f in
     if r < 1 / 2 then f else if 1 / 2 < r then f + 1 else if even f then f else f + 1)"

text \<open>
  \<open>fl x\<close> is the binary64 value nearest to the rational \<open>x\<close> (round to nearest, ties to
  even): 53 significant bits, exponents from \<open>-1022\<close> (below which the spacing stays
  \<open>2 powi -1074\<close>) to \<open>1023\<close>, and an infinity when the rounded value reaches \<open>2 powi 1024\<close>.
\<close>

definition fl :: "rat \<Rightarrow> number" where
  "fl x = (let e = largest_exp 2 \<bar>x\<bar> (- 1022) 11;
               u = 2 powi (e - 52);
               y = of_int (round_even (x / u)) * u
           in if 2 powi 1024 \<le> \<bar>y\<bar> then (if 0 < x then PosInfinity else NegInfinity)
              else Num y)"

definition is_number :: "number \<Rightarrow> bool" where
  "is_number a = (case a of Num x \<Rightarrow> fl x = Num x | _ \<Rightarrow> True)"

subsection \<open>Comparison and arithmetic\<close>

text \<open>\<^verbatim>\<open>a < b\<close>, \<^verbatim>\<open>a === b\<close>, \<^verbatim>\<open>a <= b\<close> and \<^verbatim>\<open>a > b\<close>; every comparison with NaN is false.\<close>

fun num_lt :: "number \<Rightarrow> number \<Rightarrow> bool" where
  "num_lt NaN b = False"
| "num_lt a NaN = False"
| "num_lt a NegInfinity = False"
| "num_lt NegInfinity b = True"
| "num_lt PosInfinity b = False"
| "num_lt (Num x) PosInfinity = True"
| "num_lt (Num x) (Num y) = (x < y)"

fun strict_eq :: "number \<Rightarrow> number \<Rightarrow> bool" where
  "strict_eq NaN b = False"
| "strict_eq a NaN = False"
| "strict_eq a b = (a = b)"

definition num_le :: "number \<Rightarrow> number \<Rightarrow> bool" where
  "num_le a b = (num_lt a b \<or> strict_eq a b)"

definition num_gt :: "number \<Rightarrow> number \<Rightarrow> bool" where
  "num_gt a b = num_lt b a"

text \<open>\<^verbatim>\<open>a + b\<close>, \<^verbatim>\<open>a - b\<close>, \<^verbatim>\<open>a * b\<close> and \<^verbatim>\<open>a / b\<close>: the exact result, rounded.\<close>

fun num_neg :: "number \<Rightarrow> number" where
  "num_neg NaN = NaN"
| "num_neg PosInfinity = NegInfinity"
| "num_neg NegInfinity = PosInfinity"
| "num_neg (Num x) = Num (- x)"

fun num_add :: "number \<Rightarrow> number \<Rightarrow> number" where
  "num_add NaN b = NaN"
| "num_add a NaN = NaN"
| "num_add PosInfinity NegInfinity = NaN"
| "num_add NegInfinity PosInfinity = NaN"
| "num_add PosInfinity b = PosInfinity"
| "num_add NegInfinity b = NegInfinity"
| "num_add (Num x) PosInfinity = PosInfinity"
| "num_add (Num x) NegInfinity = NegInfinity"
| "num_add (Num x) (Num y) = fl (x + y)"

definition num_sub :: "number \<Rightarrow> number \<Rightarrow> number" where
  "num_sub a b = num_add a (num_neg b)"

fun num_mul :: "number \<Rightarrow> number \<Rightarrow> number" where
  "num_mul NaN b = NaN"
| "num_mul a NaN = NaN"
| "num_mul (Num x) (Num y) = fl (x * y)"
| "num_mul (Num x) b = (if x = 0 then NaN else if 0 < x then b else num_neg b)"
| "num_mul a (Num y) = (if y = 0 then NaN else if 0 < y then a else num_neg a)"
| "num_mul a b = (if a = b then PosInfinity else NegInfinity)"

text \<open>
  Division by a zero divisor takes the divisor as \<open>+0\<close>; the classes only divide by the
  literal 100.
\<close>

fun num_div :: "number \<Rightarrow> number \<Rightarrow> number" where
  "num_div NaN b = NaN"
| "num_div a NaN = NaN"
| "num_div (Num x) (Num y) =
     (if y = 0 then (if x = 0 then NaN else if 0 < x then PosInfinity else NegInfinity)
      else fl (x / y))"
| "num_div (Num x) b = Num 0"
| "num_div a (Num y) = (if 0 \<le> y then a else num_neg a)"
| "num_div a b = NaN"

text \<open>\<^verbatim>\<open>Number.isInteger\<close>.\<close>

fun isInteger :: "number \<Rightarrow> bool" where
  "isInteger (Num x) = (of_int \<lfloor>x\<rfloor> = x)"
| "isInteger a = False"

text \<open>\<^verbatim>\<open>Number.isFinite\<close>: neither NaN nor an infinity.\<close>

fun isFinite :: "number \<Rightarrow> bool" where
  "isFinite (Num x) = True"
| "isFinite a = False"

text \<open>A finite number that is not whole.\<close>

fun has_fraction :: "number \<Rightarrow> bool" where
  "has_fraction (Num x) = (of_int \<lfloor>x\<rfloor> \<noteq> x)"
| "has_fraction a = False"

subsection \<open>Printing\<close>

text \<open>
  \<^verbatim>\<open>Number.prototype.toString\<close> belongs to the JavaScript runtime; the model follows
  ECMA-262 (Number::toString, radix 10). For a positive number \<open>x\<close> it takes integers
  \<open>n\<close>, \<open>k\<close>, \<open>s\<close> with \<open>k \<ge> 1\<close>, \<open>10 ^ (k - 1) \<le> s < 10 ^ k\<close>, such that
  \<open>s * 10 powi (n - k)\<close> rounds to \<open>x\<close> and \<open>k\<close> is as small as possible, taking the
  \<open>s\<close> closest to \<open>x\<close>; it then prints the \<open>k\<close> digits of \<open>s\<close> with the decimal point
  after the first \<open>n\<close> digits, or in exponent notation when \<open>n\<close> is not in \<open>(-6, 21]\<close>.

  For a given \<open>k\<close> only three pairs \<open>(n, s)\<close> can qualify: with \<open>10 powi (n0 - 1) \<le> x < 10 powi n0\<close>,
  the two \<open>k\<close>-digit decimals around \<open>x\<close>, and the power of ten \<open>10 powi n0\<close> just
  above \<open>x\<close>.
\<close>

definition digit_char :: "int \<Rightarrow> char" where
  "digit_char d = ''0123456789'' ! nat d"

function int_digits :: "int \<Rightarrow> string" where
  "int_digits n =
     (if n < 10 then [digit_char n]
      else int_digits (n div 10) @ [digit_char (n mod 10)])"
  by pat_completeness auto
termination
  by (relation "measure nat") auto

declare int_digits.simps [simp del]

definition candidates :: "rat \<Rightarrow> int \<Rightarrow> (int \<times> int) list" where
  "candidates x k =
     (let n0 = largest_exp 10 x (- 324) 10 + 1; t = x * 10 powi (k - n0) in
      filter (\<lambda>(n, s). 10 ^ nat (k - 1) \<le> s \<and> s < 10 ^ nat k \<and>
                        fl (of_int s * 10 powi (n - k)) = Num x)
        [(n0, \<lfloor>t\<rfloor>), (n0, \<lceil>t\<rceil>), (n0 + 1, 10 ^ nat (k - 1))])"

fun closest :: "rat \<Rightarrow> int \<Rightarrow> (int \<times> int) list \<Rightarrow> (int \<times> int) option" where
  "closest x k [] = None"
| "closest x k ((n, s) # cs) =
     (case closest x k cs of
        None \<Rightarrow> Some (n, s)
      | Some (n', s') \<Rightarrow>
          let d = \<bar>of_int s * 10 powi (n - k) - x\<bar>; d' = \<bar>of_int s' * 10 powi (n' - k) - x\<bar>
          in if d < d' \<or> (d = d' \<and> even s) then Some (n, s) else Some (n', s'))"

fun shortest :: "rat \<Rightarrow> int \<Rightarrow> nat \<Rightarrow> (int \<times> int \<times> int) option" where
  "shortest x k 0 = None"
| "shortest x k (Suc fuel) =
     (case closest x k (candidates x k) of
        Some (n, s) \<Rightarrow> Some (n, k, s)
      | None \<Rightarrow> shortest x (k + 1) fuel)"

text \<open>
  Seventeen significant digits identify every binary64 value, so the search stops at
  \<open>k = 17\<close>; it finds nothing only for a rational that is not a binary64 value.
\<close>

definition positive_toString :: "rat \<Rightarrow> string" where
  "positive_toString x =
     (case shortest x 1 17 of
        None \<Rightarrow> []
      | Some (n, k, s) \<Rightarrow>
          let ds = int_digits s in
          if k \<le> n \<and> n \<le> 21 then ds @ replicate (nat (n - k)) (CHR ''0'')
          else if 0 < n \<and> n \<le> 21 then take (nat n) ds @ ''.'' @ drop (nat n) ds
          else if - 6 < n \<and> n \<le> 0 then ''0.'' @ replicate (nat (- n)) (CHR ''0'') @ ds
          else
            let e = n - 1; es = (if e < 0 then ''-'' else ''+'') @ int_digits \<bar>e\<bar> in
            if k = 1 then ds @ ''e'' @ es else take 1 ds @ ''.'' @ drop 1 ds @ ''e'' @ es)"

fun toString :: "number \<Rightarrow> string" where
  "toString NaN = ''NaN''"
| "toString PosInfinity = ''Infinity''"
| "toString NegInfinity = ''-Infinity''"
| "toString (Num x) =
     (if x = 0 then ''0''
      else if x < 0 then ''-'' @ positive_toString (- x)
      else positive_toString x)"

text \<open>\<^verbatim>\<open>String.prototype.split\<close> with a one-character separator.\<close>

fun split :: "char \<Rightarrow> string \<Rightarrow> string list" where
  "split c [] = [Nil]"
| "split c (x # xs) =
     (if x = c then [] # split c xs
      else (case split c xs of [] \<Rightarrow> [x] # [] | p # ps \<Rightarrow> (x # p) # ps))"

section \<open>Errors\<close>

text \<open>Every failure of the two classes is \<^verbatim>\<open>throw new Error(message)\<close>.\<close>

datatype error = Error string

definition RegistrationNotPositive :: error where
  "RegistrationNotPositive = Error ''Employee registration must be greater than 0 and not negative''"

definition RegistrationBadLength :: error where
  "RegistrationBadLength = Error ''Employee registration must be between 5 and 6 digits''"

definition RegistrationNotInteger :: error where
  "RegistrationNotInteger = Error ''Employee registration must be an integer number''"

definition SalaryNegative :: error where
  "SalaryNegative = Error ''Salary cannot be negative''"

definition SalaryZero :: error where
  "SalaryZero = Error ''Salary cannot be zero''"

definition SalaryTooPrecise :: error where
  "SalaryTooPrecise = Error ''Salary must have a maximum of 2 decimal places''"

definition AdjustmentNegative :: error where
  "AdjustmentNegative = Error ''Adjustment must be greater than zero''"

definition AdjustmentTooPrecise :: error where
  "AdjustmentTooPrecise = Error ''Adjustment must have a maximum of 2 decimal places''"

definition PercentageNotPositive :: error where
  "PercentageNotPositive = Error ''Percentage must be greater than zero''"

definition PercentageOutOfRange :: error where
  "PercentageOutOfRange = Error ''Percentage cannot be greater than 100''"

section \<open>EmployeeRegistration\<close>

record EmployeeRegistration =
  registrationNumber :: number

text \<open>
  The constructor validates its argument (written \<open>rawNumber\<close> here, since the field
  takes the name \<open>registrationNumber\<close>) and then stores it.
\<close>

definition validateRegistrationNumber :: "number \<Rightarrow> error + unit" where
  "validateRegistrationNumber rawNumber =
     (if num_le rawNumber (Num 0) then Inl RegistrationNotPositive
      else
        let registrationNumberString = toString rawNumber in
        if length registrationNumberString < 5 \<or> length registrationNumberString > 6
        then Inl RegistrationBadLength
        else if \<not> isInteger rawNumber then Inl RegistrationNotInteger
        else Inr ())"

definition new_EmployeeRegistration :: "number \<Rightarrow> error + EmployeeRegistration" where
  "new_EmployeeRegistration rawNumber =
     (case validateRegistrationNumber rawNumber of
        Inl e \<Rightarrow> Inl e
      | Inr _ \<Rightarrow> Inr \<lparr>registrationNumber = rawNumber\<rparr>)"

definition getValue :: "EmployeeRegistration \<Rightarrow> number" where
  "getValue this = registrationNumber this"

definition EmployeeRegistration_isEqualTo :: "EmployeeRegistration \<Rightarrow> EmployeeRegistration \<Rightarrow> bool" where
  "EmployeeRegistration_isEqualTo this otherRegistration =
     strict_eq (registrationNumber this) (getValue otherRegistration)"

definition EmployeeRegistration_toJSON :: "EmployeeRegistration \<Rightarrow> number" where
  "EmployeeRegistration_toJSON this = registrationNumber this"

section \<open>Salary\<close>

record Salary =
  amount :: number

text \<open>
  \<^verbatim>\<open>x.toString().split('.')[1]?.length || 0\<close>, the expression both validations
  bind to \<^verbatim>\<open>decimalPlaces\<close>.
\<close>

definition decimalPlaces :: "number \<Rightarrow> nat" where
  "decimalPlaces x = (case split (CHR ''.'') (toString x) of _ # d # _ \<Rightarrow> length d | _ \<Rightarrow> 0)"

definition validateAmount :: "number \<Rightarrow> error + unit" where
  "validateAmount rawAmount =
     (if num_lt rawAmount (Num 0) then Inl SalaryNegative
      else if strict_eq rawAmount (Num 0) then Inl SalaryZero
      else if decimalPlaces rawAmount > 2 then Inl SalaryTooPrecise
      else Inr ())"

definition validateAdjustment :: "number \<Rightarrow> error + unit" where
  "validateAdjustment adjustment =
     (if num_lt adjustment (Num 0) then Inl AdjustmentNegative
      else if decimalPlaces adjustment > 2 then Inl AdjustmentTooPrecise
      else Inr ())"

definition new_Salary :: "number \<Rightarrow> error + Salary" where
  "new_Salary rawAmount =
     (case validateAmount rawAmount of
        Inl e \<Rightarrow> Inl e
      | Inr _ \<Rightarrow> Inr \<lparr>amount = rawAmount\<rparr>)"

definition getAmount :: "Salary \<Rightarrow> number" where
  "getAmount this = amount this"

definition addAmount :: "Salary \<Rightarrow> number \<Rightarrow> error + Salary" where
  "addAmount this adjustment =
     (case validateAmount adjustment of
        Inl e \<Rightarrow> Inl e
      | Inr _ \<Rightarrow> new_Salary (num_add (amount this) adjustment))"

definition subtractAmount :: "Salary \<Rightarrow> number \<Rightarrow> error + Salary" where
  "subtractAmount this adjustment =
     (case validateAdjustment adjustment of
        Inl e \<Rightarrow> Inl e
      | Inr _ \<Rightarrow>
          let newAmount = num_sub (amount this) adjustment in
          if num_lt newAmount (Num 0) then Inl SalaryNegative
          else new_Salary newAmount)"

definition increaseByPercentage :: "Salary \<Rightarrow> number \<Rightarrow> error + Salary" where
  "increaseByPercentage this percentage =
     (if num_le percentage (Num 0) then Inl PercentageNotPositive
      else if num_gt percentage (Num 100) then Inl PercentageOutOfRange
      else
        let increaseAmount = num_mul (amount this) (num_div percentage (Num 100)) in
        new_Salary (num_add (amount this) increaseAmount))"

definition Salary_toJSON :: "Salary \<Rightarrow> number" where
  "Salary_toJSON this = amount this"

definition Salary_isEqualTo :: "Salary \<Rightarrow> Salary \<Rightarrow> bool" where
  "Salary_isEqualTo this otherSalary = strict_eq (amount this) (getAmount otherSalary)"

section \<open>Salary objects in a store\<close>

text \<open>
  The classes are used through references: \<^verbatim>\<open>new Salary(a)\<close> allocates an object, and
  a method is called on a reference and may allocate another one. The store lists the objects
  allocated so far, and a reference is an index into it. The constructor is the only code
  that assigns the field (\<^verbatim>\<open>private readonly amount\<close>), and it does so in the object it
  allocates.
\<close>

type_synonym store = "Salary list"

definition construct_Salary :: "store \<Rightarrow> number \<Rightarrow> store \<times> (error + nat)" where
  "construct_Salary \<sigma> rawAmount =
     (case validateAmount rawAmount of
        Inl e \<Rightarrow> (\<sigma>, Inl e)
      | Inr _ \<Rightarrow> (\<sigma> @ [\<lparr>amount = rawAmount\<rparr>], Inr (length \<sigma>)))"

definition getAmount_at :: "store \<Rightarrow> nat \<Rightarrow> number" where
  "getAmount_at \<sigma> this = amount (\<sigma> ! this)"

definition addAmount_at :: "store \<Rightarrow> nat \<Rightarrow> number \<Rightarrow> store \<times> (error + nat)" where
  "addAmount_at \<sigma> this adjustment =
     (case validateAmount adjustment of
        Inl e \<Rightarrow> (\<sigma>, Inl e)
      | Inr _ \<Rightarrow> construct_Salary \<sigma> (num_add (amount (\<sigma> ! this)) adjustment))"

definition subtractAmount_at :: "store \<Rightarrow> nat \<Rightarrow> number \<Rightarrow> store \<times> (error + nat)" where
  "subtractAmount_at \<sigma> this adjustment =
     (case validateAdjustment adjustment of
        Inl e \<Rightarrow> (\<sigma>, Inl e)
      | Inr _ \<Rightarrow>
          let newAmount = num_sub (amount (\<sigma> ! this)) adjustment in
          if num_lt newAmount (Num 0) then (\<sigma>, Inl SalaryNegative)
          else construct_Salary \<sigma> newAmount)"

definition increaseByPercentage_at :: "store \<Rightarrow> nat \<Rightarrow> number \<Rightarrow> store \<times> (error + nat)" where
  "increaseByPercentage_at \<sigma> this percentage =
     (if num_le percentage (Num 0) then (\<sigma>, Inl PercentageNotPositive)
      else if num_gt percentage (Num 100) then (\<sigma>, Inl PercentageOutOfRange)
      else
        let increaseAmount = num_mul (amount (\<sigma> ! this)) (num_div percentage (Num 100)) in
        construct_Salary \<sigma> (num_add (amount (\<sigma> ! this)) increaseAmount))"

section \<open>Notions used by the claims\<close>

text \<open>
  The salaries a program can hold: those the constructor returns for a number, and those
  the three deriving methods return when called on a salary it can hold.
\<close>

inductive reachable :: "Salary \<Rightarrow> bool" where
  created: "is_number a \<Longrightarrow> new_Salary a = Inr m \<Longrightarrow> reachable m"
| added: "reachable m \<Longrightarrow> is_number d \<Longrightarrow> addAmount m d = Inr m' \<Longrightarrow> reachable m'"
| subtracted: "reachable m \<Longrightarrow> is_number d \<Longrightarrow> subtractAmount m d = Inr m' \<Longrightarrow> reachable m'"
| increased: "reachable m \<Longrightarrow> is_number p \<Longrightarrow> increaseByPercentage m p = Inr m' \<Longrightarrow> reachable m'"

text \<open>
  The fractional digits of a finite number: the digits after the decimal point when the
  shortest decimal that identifies it, \<open>s * 10 powi (n - k)\<close>, is written without an
  exponent. \<open>plain_notation\<close> tells whether \<^verbatim>\<open>toString\<close> prints the number that way.
\<close>

fun fraction_digits :: "number \<Rightarrow> nat" where
  "fraction_digits (Num x) =
     (case shortest \<bar>x\<bar> 1 17 of Some (n, k, s) \<Rightarrow> nat (k - n) | None \<Rightarrow> 0)"
| "fraction_digits a = 0"

fun plain_notation :: "number \<Rightarrow> bool" where
  "plain_notation (Num x) =
     (case shortest \<bar>x\<bar> 1 17 of Some (n, k, s) \<Rightarrow> - 6 < n \<and> n \<le> 21 | None \<Rightarrow> x = 0)"
| "plain_notation a = False"

section \<open>Properties of the number model\<close>

subsection \<open>Exponent search and rounding\<close>


lemma largest_exp_bounds:
  assumes "1 < b" "b powi lo \<le> x" "x < b powi (lo + 2 ^ i)"
  shows "b powi (largest_exp b x lo i) \<le> x \<and> x < b powi (largest_exp b x lo i + 1)"
  using assms
proof (induction i arbitrary: lo)
  case 0
  then show ?case by simp
next
  case (Suc i)
  show ?case
  proof (cases "b powi (lo + 2 ^ i) \<le> x")
    case True
    have "x < b powi (lo + 2 ^ i + 2 ^ i)" using Suc.prems(3) by (simp add: add.assoc)
    from Suc.IH[OF Suc.prems(1) True this] True show ?thesis by simp
  next
    case False
    then have "x < b powi (lo + 2 ^ i)" by simp
    from Suc.IH[OF Suc.prems(1) Suc.prems(2) this] False show ?thesis by simp
  qed
qed

lemma largest_exp_range:
  "lo \<le> largest_exp b x lo i \<and> largest_exp b x lo i < lo + 2 ^ i"
proof (induction i arbitrary: lo)
  case 0
  then show ?case by simp
next
  case (Suc i)
  have a: "lo + 2 ^ i \<le> largest_exp b x (lo + 2 ^ i) i \<and> largest_exp b x (lo + 2 ^ i) i < lo + 2 ^ i + 2 ^ i"
    using Suc.IH[of "lo + 2 ^ i"] by simp
  have b: "lo \<le> largest_exp b x lo i \<and> largest_exp b x lo i < lo + 2 ^ i"
    using Suc.IH[of lo] by simp
  have p: "(0::int) < 2 ^ i" by simp
  show ?case using a b p by auto
qed

lemma largest_exp_below:
  assumes "1 < b" "x < b powi lo"
  shows "largest_exp b x lo i = lo"
  using assms
proof (induction i arbitrary: lo)
  case 0
  then show ?case by simp
next
  case (Suc i)
  have "b powi lo \<le> b powi (lo + 2 ^ i)"
    using Suc.prems(1) by (intro power_int_increasing) auto
  then have "\<not> b powi (lo + 2 ^ i) \<le> x" using Suc.prems(2) by linarith
  then show ?case using Suc by simp
qed

lemma exp_unique:
  fixes b x :: rat
  assumes "1 < b" "b powi e \<le> x" "x < b powi (e + 1)" "b powi e' \<le> x" "x < b powi (e' + 1)"
  shows "e = e'"
proof (rule ccontr)
  assume "e \<noteq> e'"
  then consider "e + 1 \<le> e'" | "e' + 1 \<le> e" by linarith
  then show False
  proof cases
    case 1
    then have "b powi (e + 1) \<le> b powi e'" using assms(1) by (intro power_int_increasing) auto
    with assms show False by linarith
  next
    case 2
    then have "b powi (e' + 1) \<le> b powi e" using assms(1) by (intro power_int_increasing) auto
    with assms show False by linarith
  qed
qed

lemma largest_exp_eqI:
  assumes "1 < b" "lo \<le> e" "e < lo + 2 ^ i" "b powi e \<le> x" "x < b powi (e + 1)"
  shows "largest_exp b x lo i = e"
proof -
  have 1: "b powi lo \<le> x"
  proof -
    have "b powi lo \<le> b powi e" using assms(1,2) by (intro power_int_increasing) auto
    with assms(4) show ?thesis by linarith
  qed
  have 2: "x < b powi (lo + 2 ^ i)"
  proof -
    have "b powi (e + 1) \<le> b powi (lo + 2 ^ i)" using assms(1,3) by (intro power_int_increasing) auto
    with assms(5) show ?thesis by linarith
  qed
  from largest_exp_bounds[OF assms(1) 1 2] exp_unique[OF assms(1) _ _ assms(4,5)]
  show ?thesis by blast
qed

lemma round_even_of_int [simp]: "round_even (of_int m) = m"
  by (simp add: round_even_def)

lemma round_even_bound: "\<bar>of_int (round_even q) - q\<bar> \<le> 1 / 2"
proof -
  have "of_int \<lfloor>q\<rfloor> \<le> q" "q < of_int \<lfloor>q\<rfloor> + 1" by linarith+
  then show ?thesis by (auto simp: round_even_def Let_def)
qed


lemma pow2_int: "0 \<le> j \<Longrightarrow> (2::rat) powi j = of_int (2 ^ nat j)"
  by (simp add: power_int_nonneg_exp)

lemma fl_exact:
  assumes m: "\<bar>m\<bar> < 2 ^ 53" and e: "- 1074 \<le> e" "e \<le> 971"
  shows "fl (of_int m * 2 powi e) = Num (of_int m * 2 powi e)"
proof -
  define x :: rat where "x = of_int m * 2 powi e"
  define E where "E = largest_exp 2 \<bar>x\<bar> (- 1022) 11"
  have pe: "(0::rat) < 2 powi e" by simp
  have absx: "\<bar>x\<bar> = of_int \<bar>m\<bar> * 2 powi e"
    by (simp add: x_def abs_mult)
  have "of_int \<bar>m\<bar> < (2::rat) ^ 53"
    using m by (metis of_int_less_iff of_int_numeral of_int_power)
  then have "\<bar>x\<bar> < 2 ^ 53 * 2 powi e"
    unfolding absx using pe by (simp add: mult_strict_right_mono)
  also have "\<dots> = 2 powi (e + 53)"
    by (simp add: power_int_add)
  finally have xlt: "\<bar>x\<bar> < 2 powi (e + 53)" .
  have "(2::rat) powi (e + 53) \<le> 2 powi 1024"
    using e by (intro power_int_increasing) auto
  with xlt have x1024: "\<bar>x\<bar> < 2 powi 1024" by linarith
  have Ele: "E - 52 \<le> e"
  proof (cases "\<bar>x\<bar> < 2 powi (- 1022)")
    case True
    then have "E = - 1022" unfolding E_def by (intro largest_exp_below) auto
    with e show ?thesis by simp
  next
    case False
    have "(2::rat) powi 1024 \<le> 2 powi (- 1022 + 2 ^ 11)"
      by (intro power_int_increasing) auto
    with x1024 have "\<bar>x\<bar> < 2 powi (- 1022 + 2 ^ 11)" by linarith
    from largest_exp_bounds[of 2 "- 1022" "\<bar>x\<bar>" 11, OF _ _ this] False
    have "2 powi E \<le> \<bar>x\<bar>" unfolding E_def by simp
    with xlt have "(2::rat) powi E < 2 powi (e + 53)" by linarith
    then have "E < e + 53"
      by (metis not_less one_le_numeral power_int_increasing)
    then show ?thesis by simp
  qed
  define j where "j = e - (E - 52)"
  have j0: "0 \<le> j" using Ele by (simp add: j_def)
  have "x / 2 powi (E - 52) = of_int m * (2 powi e / 2 powi (E - 52))"
    by (simp add: x_def)
  also have "2 powi e / 2 powi (E - 52) = (2::rat) powi j"
    unfolding j_def by (simp add: power_int_diff)
  also have "\<dots> = of_int (2 ^ nat j)" using j0 by (rule pow2_int)
  finally have q: "x / 2 powi (E - 52) = of_int (m * 2 ^ nat j)" by simp
  have y: "of_int (round_even (x / 2 powi (E - 52))) * 2 powi (E - 52) = x"
  proof -
    have "of_int (round_even (x / 2 powi (E - 52))) * (2::rat) powi (E - 52)
        = x / 2 powi (E - 52) * 2 powi (E - 52)"
      unfolding q round_even_of_int ..
    also have "\<dots> = x" by simp
    finally show ?thesis .
  qed
  have "fl x = Num x"
    unfolding fl_def Let_def E_def[symmetric] y using x1024 by simp
  then show ?thesis by (simp add: x_def)
qed

lemma fl_of_int: "\<bar>i\<bar> < 2 ^ 53 \<Longrightarrow> fl (of_int i) = Num (of_int i)"
  using fl_exact[of i 0] by simp

lemma fl_numeral [simp]: "(numeral w :: int) < 2 ^ 53 \<Longrightarrow> fl (numeral w) = Num (numeral w)"
  using fl_of_int[of "numeral w"] by simp

lemma fl_0 [simp]: "fl 0 = Num 0"
  using fl_of_int[of 0] by simp

lemma fl_1 [simp]: "fl 1 = Num 1"
  using fl_of_int[of 1] by simp


lemma round_even_eqI: "\<bar>q - of_int m\<bar> < 1 / 2 \<Longrightarrow> round_even q = m"
proof -
  assume a: "\<bar>q - of_int m\<bar> < 1 / 2"
  have "\<bar>(of_int (round_even q) :: rat) - of_int m\<bar> < 1"
    using round_even_bound[of q] a by linarith
  then have "\<bar>round_even q - m\<bar> < 1"
    by (metis of_int_diff of_int_abs of_int_less_iff of_int_1)
  then show ?thesis by linarith
qed

lemma binade_eqI:
  "- 1022 \<le> E \<Longrightarrow> E \<le> 1025 \<Longrightarrow> 2 powi E \<le> a \<Longrightarrow> a < 2 powi (E + 1) \<Longrightarrow>
   largest_exp 2 a (- 1022) 11 = E"
  by (rule largest_exp_eqI) auto

lemma decade_eqI:
  "- 324 \<le> n \<Longrightarrow> n \<le> 699 \<Longrightarrow> 10 powi n \<le> a \<Longrightarrow> a < 10 powi (n + 1) \<Longrightarrow>
   largest_exp 10 a (- 324) 10 = n"
  by (rule largest_exp_eqI) auto

lemma fl_eqI:
  assumes E: "largest_exp 2 \<bar>v\<bar> (- 1022) 11 = E"
    and m: "\<bar>v / 2 powi (E - 52) - of_int m\<bar> < 1 / 2"
    and b: "\<bar>of_int m * 2 powi (E - 52)\<bar> < (2::rat) powi 1024"
  shows "fl v = Num (of_int m * 2 powi (E - 52))"
  unfolding fl_def Let_def E round_even_eqI[OF m] using b by simp

lemma fl_error:
  assumes E: "largest_exp 2 \<bar>v\<bar> (- 1022) 11 = E" and y: "fl v = Num y"
  shows "\<bar>y - v\<bar> \<le> 2 powi (E - 53)"
proof -
  define u :: rat where "u = 2 powi (E - 52)"
  have u0: "0 < u" by (simp add: u_def)
  have "y = of_int (round_even (v / u)) * u"
    using y unfolding fl_def Let_def E u_def by (auto split: if_splits)
  then have "y - v = (of_int (round_even (v / u)) - v / u) * u"
    using u0 by (simp add: algebra_simps)
  then have "\<bar>y - v\<bar> = \<bar>of_int (round_even (v / u)) - v / u\<bar> * u"
    using u0 by (simp add: abs_mult)
  also have "\<dots> \<le> 1 / 2 * u"
    using round_even_bound[of "v / u"] u0 by (intro mult_right_mono) auto
  also have "\<dots> = 2 powi (E - 53)"
    unfolding u_def using power_int_add[of "2::rat" "E - 53" 1] by simp
  finally show ?thesis .
qed

lemma fl_neqI:
  assumes "largest_exp 2 \<bar>v\<bar> (- 1022) 11 = E" "2 powi (E - 53) < \<bar>x - v\<bar>"
  shows "fl v \<noteq> Num x"
  using fl_error[OF assms(1), of x] assms(2) by auto

lemma floor_rat_numeral [simp]: "\<lfloor>numeral a / numeral b :: rat\<rfloor> = numeral a div numeral b"
  by (metis floor_divide_of_int_eq of_int_numeral)

lemma floor_rat_neg_numeral [simp]:
  "\<lfloor>- (numeral a / numeral b) :: rat\<rfloor> = - numeral a div numeral b"
proof -
  have "\<lfloor>- (numeral a / numeral b) :: rat\<rfloor> = \<lfloor>of_int (- numeral a) / (of_int (numeral b) :: rat)\<rfloor>"
    by simp
  also have "\<dots> = - numeral a div numeral b"
    by (simp only: floor_divide_of_int_eq)
  finally show ?thesis .
qed

lemma ceiling_rat_numeral [simp]: "\<lceil>numeral a / numeral b :: rat\<rceil> = - (- numeral a div numeral b)"
proof -
  have "\<lceil>numeral a / numeral b :: rat\<rceil> = - \<lfloor>of_int (- numeral a) / (of_int (numeral b) :: rat)\<rfloor>"
    by (simp add: ceiling_def)
  also have "\<dots> = - (- numeral a div numeral b)"
    by (simp only: floor_divide_of_int_eq)
  finally show ?thesis .
qed

subsection \<open>The digit search\<close>


lemma closest_None: "closest x k cs = None \<longleftrightarrow> cs = []"
  by (induction cs) (auto simp: Let_def split: option.splits)

lemma closest_mem: "closest x k cs = Some c \<Longrightarrow> c \<in> set cs"
  by (induction cs arbitrary: c) (auto simp: Let_def split: option.splits if_splits)

lemma shortest_sound:
  "shortest x k fuel = Some (n, k', s) \<Longrightarrow>
     (n, s) \<in> set (candidates x k') \<and> k \<le> k' \<and> k' < k + int fuel"
proof (induction fuel arbitrary: k)
  case 0
  then show ?case by simp
next
  case (Suc fuel)
  show ?case
  proof (cases "closest x k (candidates x k)")
    case None
    with Suc.prems have "shortest x (k + 1) fuel = Some (n, k', s)" by simp
    from Suc.IH[OF this] show ?thesis by auto
  next
    case (Some c)
    with Suc.prems have "c = (n, s)" "k' = k" by (auto split: prod.splits)
    with Some closest_mem[of x k "candidates x k" c] show ?thesis by auto
  qed
qed

lemma shortest_complete:
  "candidates x k0 \<noteq> [] \<Longrightarrow> k \<le> k0 \<Longrightarrow> k0 < k + int fuel \<Longrightarrow>
     \<exists>n k' s. shortest x k fuel = Some (n, k', s) \<and> k' \<le> k0"
proof (induction fuel arbitrary: k)
  case 0
  then show ?case by simp
next
  case (Suc fuel)
  show ?case
  proof (cases "closest x k (candidates x k)")
    case None
    then have "candidates x k = []" by (simp add: closest_None)
    with Suc.prems have "k \<noteq> k0" by auto
    with Suc.prems have "k + 1 \<le> k0" "k0 < k + 1 + int fuel" by auto
    from Suc.IH[OF Suc.prems(1) this] None show ?thesis by simp
  next
    case (Some c)
    then show ?thesis using Suc.prems(2) by (cases c) auto
  qed
qed

lemma candidates_mem:
  assumes "(n, s) \<in> set (candidates x k)"
  shows "10 ^ nat (k - 1) \<le> s" "s < 10 ^ nat k" "fl (of_int s * 10 powi (n - k)) = Num x"
    "n = largest_exp 10 x (- 324) 10 + 1 \<or>
     (n = largest_exp 10 x (- 324) 10 + 2 \<and> s = 10 ^ nat (k - 1))"
  using assms unfolding candidates_def Let_def
  by (auto simp del: filter.simps)

lemma length_int_digits_aux:
  "10 ^ j \<le> s \<Longrightarrow> s < 10 ^ Suc j \<Longrightarrow> length (int_digits s) = Suc j"
proof (induction j arbitrary: s)
  case 0
  then show ?case by (subst int_digits.simps) simp
next
  case (Suc j)
  have "10 ^ j \<le> s div 10" using Suc.prems(1) by simp
  moreover have "s div 10 < 10 ^ Suc j" using Suc.prems(2) by simp
  ultimately have "length (int_digits (s div 10)) = Suc j" by (rule Suc.IH)
  moreover have "\<not> s < 10"
  proof -
    have "(10::int) \<le> 10 ^ Suc j" by simp
    with Suc.prems(1) show ?thesis by linarith
  qed
  ultimately show ?case by (subst int_digits.simps) simp
qed

lemma length_int_digits:
  assumes "1 \<le> k" "10 ^ nat (k - 1) \<le> s" "s < 10 ^ nat k"
  shows "length (int_digits s) = nat k"
proof -
  have "nat k = Suc (nat (k - 1))" using assms(1) by simp
  with length_int_digits_aux[of "nat (k - 1)" s] assms(2,3) show ?thesis by simp
qed


subsection \<open>Whole numbers of five or six digits\<close>


lemma pow10_int: "0 \<le> j \<Longrightarrow> (10::rat) powi j = of_int (10 ^ nat j)"
  by (simp add: power_int_nonneg_exp)

lemma positive_toString_integer:
  assumes i: "10000 \<le> i" "i \<le> 999999"
  shows "length (positive_toString (of_int i)) = 5 \<or> length (positive_toString (of_int i)) = 6"
proof -
  define x :: rat where "x = of_int i"
  define d where "d = largest_exp 10 x (- 324) 10"
  have x4: "10 powi 4 \<le> x" and x6: "x < 10 powi 6"
    using i by (simp_all add: x_def)
  have "(10::rat) powi (- 324) \<le> 10 powi 4" by (intro power_int_increasing) auto
  with x4 have lo: "10 powi (- 324) \<le> x" by linarith
  have "(10::rat) powi 6 \<le> 10 powi (- 324 + 2 ^ 10)" by (intro power_int_increasing) auto
  with x6 have hi: "x < 10 powi (- 324 + 2 ^ 10)" by linarith
  from largest_exp_bounds[of 10 "- 324" x 10, OF _ lo hi]
  have d: "10 powi d \<le> x" "x < 10 powi (d + 1)" by (simp_all add: d_def)
  have d_lt: "d < 6"
  proof (rule ccontr)
    assume "\<not> d < 6"
    then have "(10::rat) powi 6 \<le> 10 powi d" by (intro power_int_increasing) auto
    with d(1) x6 show False by linarith
  qed
  have d_gt: "3 < d"
  proof (rule ccontr)
    assume "\<not> 3 < d"
    then have "(10::rat) powi (d + 1) \<le> 10 powi 4" by (intro power_int_increasing) auto
    with d(2) x4 show False by linarith
  qed
  have d0: "0 \<le> d" using d_gt by simp
  have i_lo: "10 ^ nat d \<le> i"
    using d(1) unfolding x_def pow10_int[OF d0] by (simp only: of_int_le_iff)
  have i_hi: "i < 10 ^ nat (d + 1)"
  proof -
    have "0 \<le> d + 1" using d0 by simp
    from d(2)[unfolded x_def pow10_int[OF this]] show ?thesis by (simp only: of_int_less_iff)
  qed
  have i53: "\<bar>i\<bar> < 2 ^ 53" using i by simp
  have "(d + 1, i) \<in> set (candidates x (d + 1))"
    unfolding candidates_def Let_def d_def[symmetric]
    using i_lo i_hi fl_of_int[OF i53] by (simp add: x_def)
  then have ne: "candidates x (d + 1) \<noteq> []" by auto
  have "\<exists>n k s. shortest x 1 17 = Some (n, k, s) \<and> k \<le> d + 1"
    using d_lt d_gt by (intro shortest_complete[OF ne]) auto
  then obtain n k s where sh: "shortest x 1 17 = Some (n, k, s)" and kd: "k \<le> d + 1"
    by blast
  from shortest_sound[OF sh] have mem: "(n, s) \<in> set (candidates x k)" and k1: "1 \<le> k"
    by auto
  note c = candidates_mem[OF mem, folded d_def]
  have n: "n = d + 1"
  proof (rule ccontr)
    assume "n \<noteq> d + 1"
    with c(4) have n2: "n = d + 2" and s: "s = 10 ^ nat (k - 1)" by auto
    have "of_int s * (10::rat) powi (n - k) = 10 powi (k - 1) * 10 powi (d + 2 - k)"
      using k1 by (simp add: s n2 pow10_int)
    also have "\<dots> = 10 powi (d + 1)"
      using power_int_add[of "10::rat" "k - 1" "d + 2 - k"] by (simp add: add.commute)
    finally have v: "of_int s * (10::rat) powi (n - k) = 10 powi (d + 1)" .
    have "(10::rat) powi (d + 1) = of_int (10 ^ nat (d + 1))"
      using d0 by (intro pow10_int) simp
    moreover have "\<bar>(10::int) ^ nat (d + 1)\<bar> < 2 ^ 53"
    proof -
      have "(10::int) ^ nat (d + 1) \<le> 10 ^ 6"
        using d_lt d0 by (intro power_increasing) auto
      then show ?thesis by simp
    qed
    ultimately have "fl (10 powi (d + 1)) = Num (10 powi (d + 1))"
      using fl_of_int by metis
    with c(3) v have "x = 10 powi (d + 1)" by simp
    with d(2) show False by simp
  qed
  have len: "length (int_digits s) = nat k"
    using k1 c(1,2) by (rule length_int_digits)
  have "positive_toString x = int_digits s @ replicate (nat (n - k)) (CHR ''0'')"
    unfolding positive_toString_def sh using kd n d_lt by (simp add: Let_def)
  then have "length (positive_toString x) = nat k + nat (n - k)"
    using len by simp
  also have "\<dots> = nat (d + 1)" using k1 kd n by simp
  finally have "length (positive_toString x) = nat (d + 1)" .
  moreover have "d = 4 \<or> d = 5" using d_lt d_gt by auto
  ultimately show ?thesis unfolding x_def by auto
qed

lemma new_EmployeeRegistration_integer:
  assumes "10000 \<le> i" "i \<le> 999999"
  shows "new_EmployeeRegistration (Num (of_int i)) = Inr \<lparr>registrationNumber = Num (of_int i)\<rparr>"
proof -
  have "0 < i" using assms by simp
  then have pos: "(0::rat) < of_int i" by simp
  then have ts: "toString (Num (of_int i)) = positive_toString (of_int i)" by simp
  have "\<not> num_le (Num (of_int i)) (Num 0)" using pos by (simp add: num_le_def)
  moreover have "isInteger (Num (of_int i))" by simp
  ultimately show ?thesis
    using positive_toString_integer[OF assms]
    unfolding new_EmployeeRegistration_def validateRegistrationNumber_def Let_def ts
    by auto
qed

subsection \<open>Printed form and decimal places\<close>


lemma split_no_sep: "c \<notin> set xs \<Longrightarrow> split c xs = [xs]"
  by (induction xs) auto

lemma split_at_sep: "c \<notin> set xs \<Longrightarrow> split c (xs @ c # ys) = xs # split c ys"
  by (induction xs) auto

lemma split_not_Nil [simp]: "split c xs \<noteq> []"
  by (induction xs) (auto split: list.splits)

lemma digit_char_set: "0 \<le> d \<Longrightarrow> d < 10 \<Longrightarrow> digit_char d \<in> set ''0123456789''"
  unfolding digit_char_def by (intro nth_mem) simp

lemma int_digits_set: "0 \<le> s \<Longrightarrow> set (int_digits s) \<subseteq> set ''0123456789''"
proof (induction s rule: int_digits.induct)
  case (1 n)
  show ?case
  proof (cases "n < 10")
    case True
    with 1 digit_char_set[of n] show ?thesis by (subst int_digits.simps) simp
  next
    case False
    with 1 have "set (int_digits (n div 10)) \<subseteq> set ''0123456789''" by simp
    moreover have "digit_char (n mod 10) \<in> set ''0123456789''"
      by (rule digit_char_set) simp_all
    ultimately show ?thesis using False by (subst int_digits.simps) simp
  qed
qed

lemma dot_not_digit: "0 \<le> s \<Longrightarrow> CHR ''.'' \<notin> set (int_digits s)"
  using int_digits_set[of s] by auto

lemma decimalPlaces_plain:
  assumes x: "0 < x" and sh: "shortest x 1 17 = Some (n, k, s)" and n: "- 6 < n" "n \<le> 21"
  shows "decimalPlaces (Num x) = nat (k - n)"
proof -
  from shortest_sound[OF sh] have mem: "(n, s) \<in> set (candidates x k)" and k1: "1 \<le> k"
    by auto
  note c = candidates_mem[OF mem]
  have s0: "0 \<le> s"
  proof -
    have "(0::int) \<le> 10 ^ nat (k - 1)" by simp
    with c(1) show ?thesis by linarith
  qed
  define ds where "ds = int_digits s"
  have len: "length ds = nat k" unfolding ds_def using k1 c(1,2) by (rule length_int_digits)
  have nodot: "CHR ''.'' \<notin> set ds" unfolding ds_def using s0 by (rule dot_not_digit)
  have ts: "toString (Num x) = positive_toString x" using x by simp
  consider (whole) "k \<le> n" | (mixed) "0 < n" "n < k" | (small) "n \<le> 0" by linarith
  then show ?thesis
  proof cases
    case whole
    have "positive_toString x = ds @ replicate (nat (n - k)) (CHR ''0'')"
      unfolding positive_toString_def sh ds_def using whole n by (simp add: Let_def)
    moreover have "CHR ''.'' \<notin> set (ds @ replicate (nat (n - k)) (CHR ''0''))"
      using nodot by auto
    ultimately have "split (CHR ''.'') (positive_toString x) = [positive_toString x]"
      by (simp add: split_no_sep)
    then show ?thesis unfolding decimalPlaces_def ts using whole by simp
  next
    case mixed
    have "positive_toString x = take (nat n) ds @ CHR ''.'' # drop (nat n) ds"
      unfolding positive_toString_def sh ds_def using mixed n by (simp add: Let_def)
    moreover have "CHR ''.'' \<notin> set (take (nat n) ds)" "CHR ''.'' \<notin> set (drop (nat n) ds)"
      using nodot by (auto dest: in_set_takeD in_set_dropD)
    ultimately have "split (CHR ''.'') (positive_toString x) = [take (nat n) ds, drop (nat n) ds]"
      by (simp add: split_at_sep split_no_sep)
    then show ?thesis unfolding decimalPlaces_def ts using mixed len by simp
  next
    case small
    have "positive_toString x = ''0'' @ CHR ''.'' # (replicate (nat (- n)) (CHR ''0'') @ ds)"
      unfolding positive_toString_def sh ds_def using small n k1 by (simp add: Let_def)
    moreover have "CHR ''.'' \<notin> set (replicate (nat (- n)) (CHR ''0'') @ ds)"
      using nodot by auto
    then have "split (CHR ''.'') (replicate (nat (- n)) (CHR ''0'') @ ds)
        = [replicate (nat (- n)) (CHR ''0'') @ ds]"
      by (rule split_no_sep)
    ultimately have "split (CHR ''.'') (positive_toString x)
        = [''0'', replicate (nat (- n)) (CHR ''0'') @ ds]"
      by simp
    then show ?thesis unfolding decimalPlaces_def ts using small len k1 by simp
  qed
qed

lemma decimalPlaces_fraction_digits:
  "0 < x \<Longrightarrow> plain_notation (Num x) \<Longrightarrow> decimalPlaces (Num x) = fraction_digits (Num x)"
  by (auto split: option.splits simp: decimalPlaces_plain)

subsection \<open>Rounded values are numbers\<close>


lemma largest_exp_above:
  assumes "1 < b" "b powi (lo + 2 ^ i - 1) \<le> x"
  shows "largest_exp b x lo i = lo + 2 ^ i - 1"
  using assms
proof (induction i arbitrary: lo)
  case 0
  then show ?case by simp
next
  case (Suc i)
  have "b powi (lo + 2 ^ i) \<le> b powi (lo + 2 ^ Suc i - 1)"
    using Suc.prems(1) by (intro power_int_increasing) auto
  with Suc.prems(2) have 1: "b powi (lo + 2 ^ i) \<le> x" by linarith
  have "b powi (lo + 2 ^ i + 2 ^ i - 1) \<le> x" using Suc.prems(2) by (simp add: add.assoc)
  from Suc.IH[OF Suc.prems(1) this] 1 show ?case by simp
qed

lemma round_even_abs_le:
  assumes "\<bar>q\<bar> < of_int N"
  shows "\<bar>round_even q\<bar> \<le> N"
proof -
  have "\<bar>(of_int (round_even q) :: rat)\<bar> < of_int N + 1"
    using round_even_bound[of q] assms by linarith
  then have "(of_int \<bar>round_even q\<bar> :: rat) < of_int (N + 1)" by simp
  then have "\<bar>round_even q\<bar> < N + 1" by (simp only: of_int_less_iff)
  then show ?thesis by simp
qed

lemma round_even_abs_ge:
  assumes "of_int N \<le> \<bar>q\<bar>"
  shows "N \<le> \<bar>round_even q\<bar>"
proof -
  have "of_int N - 1 < \<bar>(of_int (round_even q) :: rat)\<bar>"
    using round_even_bound[of q] assms by linarith
  then have "(of_int (N - 1) :: rat) < of_int \<bar>round_even q\<bar>" by simp
  then have "N - 1 < \<bar>round_even q\<bar>" by (simp only: of_int_less_iff)
  then show ?thesis by simp
qed

lemma fl_idem:
  assumes "fl x = Num y"
  shows "fl y = Num y"
proof -
  define E where "E = largest_exp 2 \<bar>x\<bar> (- 1022) 11"
  define u :: rat where "u = 2 powi (E - 52)"
  define r where "r = round_even (x / u)"
  have u0: "0 < u" by (simp add: u_def)
  have y: "y = of_int r * u" and small: "\<bar>y\<bar> < 2 powi 1024"
    using assms unfolding fl_def Let_def E_def[symmetric] u_def[symmetric] r_def[symmetric]
    by (auto split: if_splits)
  have absy: "\<bar>y\<bar> = of_int \<bar>r\<bar> * u" using u0 by (simp add: y abs_mult)
  have Er: "- 1022 \<le> E" "E \<le> 1025"
    using largest_exp_range[of "- 1022" 2 "\<bar>x\<bar>" 11] by (simp_all add: E_def)
  have q: "\<bar>x / u\<bar> = \<bar>x\<bar> / u" using u0 by simp
  have lower: "2 powi E \<le> \<bar>x\<bar>" if "- 1022 < E"
  proof (rule ccontr)
    assume a: "\<not> 2 powi E \<le> \<bar>x\<bar>"
    have "\<bar>x\<bar> < 2 powi (- 1022)"
    proof (rule ccontr)
      assume b: "\<not> \<bar>x\<bar> < 2 powi (- 1022)"
      show False
      proof (cases "\<bar>x\<bar> < 2 powi (- 1022 + 2 ^ 11)")
        case True
        from largest_exp_bounds[of 2 "- 1022" "\<bar>x\<bar>" 11, OF _ _ True] a b show False
          by (simp add: E_def)
      next
        case False
        then have "2 powi (- 1022 + 2 ^ 11 - 1) \<le> \<bar>x\<bar>"
        proof -
          have "(2::rat) powi (- 1022 + 2 ^ 11 - 1) \<le> 2 powi (- 1022 + 2 ^ 11)"
            by (intro power_int_increasing) auto
          with False show ?thesis by linarith
        qed
        then have "E = - 1022 + 2 ^ 11 - 1"
          unfolding E_def by (intro largest_exp_above) auto
        with a \<open>2 powi (- 1022 + 2 ^ 11 - 1) \<le> \<bar>x\<bar>\<close> show False by simp
      qed
    qed
    then have "E = - 1022" unfolding E_def by (intro largest_exp_below) auto
    with that show False by simp
  qed
  have E1023: "E \<le> 1023"
  proof (rule ccontr)
    assume "\<not> E \<le> 1023"
    then have E: "1024 \<le> E" by simp
    then have "2 powi E \<le> \<bar>x\<bar>" by (intro lower) simp
    then have "2 powi E / u \<le> \<bar>x / u\<bar>" unfolding q using u0 by (simp add: divide_right_mono)
    moreover have "2 powi E / u = (2::rat) powi 52"
      unfolding u_def using power_int_diff[of "2::rat" E "E - 52"] by simp
    ultimately have "of_int (2 ^ 52) \<le> \<bar>x / u\<bar>" by simp
    then have "2 ^ 52 \<le> \<bar>r\<bar>" unfolding r_def by (rule round_even_abs_ge)
    then have "(of_int (2 ^ 52) :: rat) \<le> of_int \<bar>r\<bar>" by (simp only: of_int_le_iff)
    then have "2 ^ 52 * u \<le> \<bar>y\<bar>" unfolding absy using u0 by (simp add: mult_right_mono)
    moreover have "2 ^ 52 * u = (2::rat) powi E"
      unfolding u_def using power_int_add[of "2::rat" 52 "E - 52"] by simp
    moreover have "(2::rat) powi 1024 \<le> 2 powi E" using E by (intro power_int_increasing) auto
    ultimately show False using small by linarith
  qed
  have upper: "\<bar>x\<bar> < 2 powi (E + 1)"
  proof (cases "\<bar>x\<bar> < 2 powi (- 1022)")
    case True
    have "(2::rat) powi (- 1022) \<le> 2 powi (E + 1)" using Er by (intro power_int_increasing) auto
    with True show ?thesis by linarith
  next
    case False
    show ?thesis
    proof (cases "\<bar>x\<bar> < 2 powi (- 1022 + 2 ^ 11)")
      case True
      from largest_exp_bounds[of 2 "- 1022" "\<bar>x\<bar>" 11, OF _ _ True] False show ?thesis
        by (simp add: E_def)
    next
      case False
      have "(2::rat) powi (- 1022 + 2 ^ 11 - 1) \<le> 2 powi (- 1022 + 2 ^ 11)"
        by (intro power_int_increasing) auto
      with False have "2 powi (- 1022 + 2 ^ 11 - 1) \<le> \<bar>x\<bar>" by linarith
      then have "E = - 1022 + 2 ^ 11 - 1"
        unfolding E_def by (intro largest_exp_above) auto
      with E1023 show ?thesis by simp
    qed
  qed
  have "\<bar>x / u\<bar> < 2 powi (E + 1) / u" unfolding q using upper u0 by (simp add: divide_strict_right_mono)
  moreover have "2 powi (E + 1) / u = (2::rat) powi 53"
    unfolding u_def using power_int_diff[of "2::rat" "E + 1" "E - 52"] by simp
  ultimately have "\<bar>x / u\<bar> < of_int (2 ^ 53)" by simp
  then have r53: "\<bar>r\<bar> \<le> 2 ^ 53" unfolding r_def by (rule round_even_abs_le)
  show ?thesis
  proof (cases "\<bar>r\<bar> < 2 ^ 53")
    case True
    from fl_exact[OF True, of "E - 52"] Er E1023 show ?thesis by (simp add: y u_def)
  next
    case False
    with r53 have r: "\<bar>r\<bar> = 2 ^ 53" by simp
    have E1022: "E \<le> 1022"
    proof (rule ccontr)
      assume "\<not> E \<le> 1022"
      with E1023 have "E = 1023" by simp
      then have "\<bar>y\<bar> = 2 ^ 53 * 2 powi 971" unfolding absy r u_def by simp
      also have "\<dots> = 2 powi 1024" using power_int_add[of "2::rat" 53 971] by simp
      finally show False using small by simp
    qed
    have rr: "r = 2 ^ 53 \<or> r = - (2 ^ 53)" using r by linarith
    then have twice: "r = 2 * (r div 2)" by auto
    from rr have half: "\<bar>r div 2\<bar> < 2 ^ 53" by auto
    have "(of_int r :: rat) = of_int (2 * (r div 2))" using twice by simp
    then have "(of_int r :: rat) = of_int (r div 2) * 2" by simp
    then have y2: "y = of_int (r div 2) * (2 * u)" unfolding y by simp
    have "2 * u = (2::rat) powi (E - 51)"
      unfolding u_def using power_int_add[of "2::rat" 1 "E - 52"] by simp
    with y2 have y3: "y = of_int (r div 2) * 2 powi (E - 51)" by simp
    from fl_exact[OF half, of "E - 51"] Er E1022 show ?thesis by (simp add: y3)
  qed
qed

lemma fl_is_number [simp]: "is_number (fl x)"
  using fl_idem[of x] by (cases "fl x") (auto simp: is_number_def)


lemma is_number_simps [simp]:
  "is_number NaN" "is_number PosInfinity" "is_number NegInfinity"
  by (simp_all add: is_number_def)

lemma is_number_Num: "is_number (Num x) \<longleftrightarrow> fl x = Num x"
  by (simp add: is_number_def)

lemma is_number_add [simp]: "is_number (num_add a b)"
  by (cases a; cases b) simp_all

lemma is_number_sub [simp]: "is_number (num_sub a b)"
  by (simp add: num_sub_def)

lemma validateAmount_Inr:
  "validateAmount a = Inr u \<longleftrightarrow>
     \<not> num_lt a (Num 0) \<and> \<not> strict_eq a (Num 0) \<and> decimalPlaces a \<le> 2"
  by (auto simp: validateAmount_def)

lemma validateAdjustment_Inr:
  "validateAdjustment a = Inr u \<longleftrightarrow> \<not> num_lt a (Num 0) \<and> decimalPlaces a \<le> 2"
  by (auto simp: validateAdjustment_def)

lemma new_Salary_Inr:
  "new_Salary a = Inr m \<longleftrightarrow> validateAmount a = Inr () \<and> m = \<lparr>amount = a\<rparr>"
  by (auto simp: new_Salary_def split: sum.splits)

lemma addAmount_Inr:
  "addAmount m d = Inr m' \<Longrightarrow> new_Salary (num_add (amount m) d) = Inr m'"
  by (auto simp: addAmount_def split: sum.splits)

lemma subtractAmount_Inr:
  "subtractAmount m d = Inr m' \<Longrightarrow> new_Salary (num_sub (amount m) d) = Inr m'"
  by (auto simp: subtractAmount_def Let_def split: sum.splits if_splits)

lemma increaseByPercentage_Inr:
  "increaseByPercentage m p = Inr m' \<Longrightarrow>
     new_Salary (num_add (amount m) (num_mul (amount m) (num_div p (Num 100)))) = Inr m'"
  by (auto simp: increaseByPercentage_def Let_def split: if_splits)

lemma reachable_checked:
  "reachable m \<Longrightarrow> validateAmount (amount m) = Inr () \<and> is_number (amount m)"
proof (induction rule: reachable.induct)
  case (created a m)
  then show ?case by (auto simp: new_Salary_Inr)
next
  case (added m d m')
  from addAmount_Inr[OF added(3)] show ?case by (auto simp: new_Salary_Inr)
next
  case (subtracted m d m')
  from subtractAmount_Inr[OF subtracted(3)] show ?case by (auto simp: new_Salary_Inr)
next
  case (increased m p m')
  from increaseByPercentage_Inr[OF increased(3)] show ?case by (auto simp: new_Salary_Inr)
qed

lemma positive_or_NaN:
  assumes "\<not> num_lt a (Num 0)" "\<not> strict_eq a (Num 0)"
  shows "a = NaN \<or> num_gt a (Num 0)"
  using assms by (cases a) (auto simp: num_gt_def)

lemma decimalPlaces_at_least_3:
  assumes x: "0 < x"
    and d: "largest_exp 10 x (- 324) 10 = d" "- 7 < d" "d \<le> - 1"
    and none: "candidates x 1 = []" "candidates x 2 = []" "candidates x 3 = []"
    and some: "candidates x k0 \<noteq> []" "1 \<le> k0" "k0 \<le> 17"
  shows "2 < decimalPlaces (Num x)"
proof -
  have "\<exists>n k s. shortest x 1 17 = Some (n, k, s) \<and> k \<le> k0"
    using some by (intro shortest_complete) auto
  then obtain n k s where sh: "shortest x 1 17 = Some (n, k, s)" by blast
  from shortest_sound[OF sh] have mem: "(n, s) \<in> set (candidates x k)" and k1: "1 \<le> k"
    by auto
  have "k \<noteq> 1" "k \<noteq> 2" "k \<noteq> 3" using mem none by auto
  with k1 have k4: "4 \<le> k" by linarith
  from candidates_mem(4)[OF mem] d have n: "- 6 < n" "n \<le> 1" by auto
  then have "decimalPlaces (Num x) = nat (k - n)"
    by (intro decimalPlaces_plain[OF x sh]) auto
  with k4 n show ?thesis by simp
qed

lemma num_sub_zero: "is_number a \<Longrightarrow> num_sub a (Num 0) = a"
  by (cases a) (simp_all add: num_sub_def is_number_Num)


lemma round_even_tieI:
  assumes "q = of_int f + 1 / 2" "m = (if even f then f else f + 1)"
  shows "round_even q = m"
proof -
  have "\<lfloor>q\<rfloor> = f" unfolding assms(1) by linarith
  then show ?thesis unfolding round_even_def Let_def assms(2) by (simp add: assms(1))
qed

lemma fl_eqI_tie:
  assumes E: "largest_exp 2 \<bar>v\<bar> (- 1022) 11 = E"
    and f: "v / 2 powi (E - 52) = of_int f + 1 / 2"
    and m: "m = (if even f then f else f + 1)"
    and b: "\<bar>of_int m * 2 powi (E - 52)\<bar> < (2::rat) powi 1024"
  shows "fl v = Num (of_int m * 2 powi (E - 52))"
  unfolding fl_def Let_def E round_even_tieI[OF f m] using b by simp

section \<open>Worked numbers\<close>

text \<open>
  The claims are tried on concrete numbers. For each of them: it is a binary64 value
  (\<open>fl\<close> leaves it unchanged), its decade, the digits the search finds, and its printed form.
\<close>

text \<open>The number 123456.5.\<close>

lemma fl_123456_5: "fl (246913 / 2) = Num (246913 / 2)"
  using fl_exact[of 246913 "- 1"] by simp

lemma decade_123456_5: "largest_exp 10 (246913 / 2) (- 324) 10 = 5"
  by (rule decade_eqI) simp_all

lemma shortest_123456_5: "shortest (246913 / 2) 1 17 = Some (6, 7, 1234565)"
  by (simp add: eval_nat_numeral candidates_def decade_123456_5 fl_123456_5)

lemma digits_1234565: "int_digits 1234565 = ''1234565''"
  by (simp add: int_digits.simps digit_char_def)

lemma toString_123456_5: "positive_toString (246913 / 2) = ''123456.5''"
  unfolding positive_toString_def shortest_123456_5 by (simp add: eval_nat_numeral digits_1234565)

text \<open>The number 1234.5.\<close>

lemma fl_1234_5: "fl (2469 / 2) = Num (2469 / 2)"
  using fl_exact[of 2469 "- 1"] by simp

lemma decade_1234_5: "largest_exp 10 (2469 / 2) (- 324) 10 = 3"
  by (rule decade_eqI) simp_all

lemma shortest_1234_5: "shortest (2469 / 2) 1 17 = Some (4, 5, 12345)"
  by (simp add: eval_nat_numeral candidates_def decade_1234_5 fl_1234_5)

lemma digits_12345: "int_digits 12345 = ''12345''"
  by (simp add: int_digits.simps digit_char_def)

lemma toString_1234_5: "positive_toString (2469 / 2) = ''1234.5''"
  unfolding positive_toString_def shortest_1234_5 by (simp add: eval_nat_numeral digits_12345)

text \<open>The number 1.5.\<close>

lemma fl_1_5: "fl (3 / 2) = Num (3 / 2)"
  using fl_exact[of 3 "- 1"] by simp

lemma decade_1_5: "largest_exp 10 (3 / 2) (- 324) 10 = 0"
  by (rule decade_eqI) simp_all

lemma shortest_1_5: "shortest (3 / 2) 1 17 = Some (1, 2, 15)"
  by (simp add: eval_nat_numeral candidates_def decade_1_5 fl_1_5)

lemma digits_15: "int_digits 15 = ''15''"
  by (simp add: int_digits.simps digit_char_def)

lemma toString_1_5: "positive_toString (3 / 2) = ''1.5''"
  unfolding positive_toString_def shortest_1_5 by (simp add: eval_nat_numeral digits_15)

text \<open>The number 1.5e+21.\<close>

lemma fl_1_5e21: "fl (1500000000000000000000) = Num (1500000000000000000000)"
  using fl_exact[of 5722045898437500 18] by simp

lemma decade_1_5e21: "largest_exp 10 (1500000000000000000000) (- 324) 10 = 21"
  by (rule decade_eqI) simp_all

lemma fl_1_5e21_c1: "fl (1000000000000000000000) \<noteq> Num (1500000000000000000000)"
proof -
  have b: "largest_exp 2 \<bar>1000000000000000000000\<bar> (- 1022) 11 = 69" by (rule binade_eqI) simp_all
  show ?thesis by (rule fl_neqI[OF b]) simp
qed

lemma fl_1_5e21_c2: "fl (2000000000000000000000) \<noteq> Num (1500000000000000000000)"
proof -
  have b: "largest_exp 2 \<bar>2000000000000000000000\<bar> (- 1022) 11 = 70" by (rule binade_eqI) simp_all
  show ?thesis by (rule fl_neqI[OF b]) simp
qed

lemma fl_1_5e21_c3: "fl (10000000000000000000000) \<noteq> Num (1500000000000000000000)"
proof -
  have b: "largest_exp 2 \<bar>10000000000000000000000\<bar> (- 1022) 11 = 73" by (rule binade_eqI) simp_all
  show ?thesis by (rule fl_neqI[OF b]) simp
qed

lemma shortest_1_5e21: "shortest (1500000000000000000000) 1 17 = Some (22, 2, 15)"
  by (simp add: eval_nat_numeral candidates_def decade_1_5e21 fl_1_5e21 fl_1_5e21_c1 fl_1_5e21_c2 fl_1_5e21_c3)

lemma digits_21: "int_digits 21 = ''21''"
  by (simp add: int_digits.simps digit_char_def)

lemma toString_1_5e21: "positive_toString (1500000000000000000000) = ''1.5e+21''"
  unfolding positive_toString_def shortest_1_5e21 by (simp add: eval_nat_numeral digits_15 digits_21)

text \<open>The number 1e-7.\<close>

lemma fl_1em7: "fl (944473296573929 / 9444732965739290427392) = Num (944473296573929 / 9444732965739290427392)"
  using fl_exact[of 944473296573929 "- 73"] by simp

lemma decade_1em7: "largest_exp 10 (944473296573929 / 9444732965739290427392) (- 324) 10 = - 8"
  by (rule decade_eqI) simp_all

lemma fl_1em7_c1: "fl (9 / 100000000) \<noteq> Num (944473296573929 / 9444732965739290427392)"
proof -
  have b: "largest_exp 2 \<bar>9 / 100000000\<bar> (- 1022) 11 = - 24" by (rule binade_eqI) simp_all
  show ?thesis by (rule fl_neqI[OF b]) simp
qed

lemma fl_1em7_c2: "fl (1 / 10000000) = Num (944473296573929 / 9444732965739290427392)"
proof -
  have b: "largest_exp 2 \<bar>1 / 10000000\<bar> (- 1022) 11 = - 24" by (rule binade_eqI) simp_all
  have "fl (1 / 10000000) = Num (of_int 7555786372591432 * 2 powi (- 24 - 52))"
    by (rule fl_eqI[OF b]) simp_all
  then show ?thesis by simp
qed

lemma shortest_1em7: "shortest (944473296573929 / 9444732965739290427392) 1 17 = Some (- 6, 1, 1)"
  by (simp add: eval_nat_numeral candidates_def decade_1em7 fl_1em7 fl_1em7_c1 fl_1em7_c2)

lemma digits_1: "int_digits 1 = ''1''"
  by (simp add: int_digits.simps digit_char_def)

lemma digits_7: "int_digits 7 = ''7''"
  by (simp add: int_digits.simps digit_char_def)

lemma toString_1em7: "positive_toString (944473296573929 / 9444732965739290427392) = ''1e-7''"
  unfolding positive_toString_def shortest_1em7 by (simp add: eval_nat_numeral digits_1 digits_7)

text \<open>The number 0.1.\<close>

lemma fl_0_1: "fl (3602879701896397 / 36028797018963968) = Num (3602879701896397 / 36028797018963968)"
  using fl_exact[of 3602879701896397 "- 55"] by simp

lemma decade_0_1: "largest_exp 10 (3602879701896397 / 36028797018963968) (- 324) 10 = - 1"
  by (rule decade_eqI) simp_all

lemma fl_0_1_c1: "fl (1 / 10) = Num (3602879701896397 / 36028797018963968)"
proof -
  have b: "largest_exp 2 \<bar>1 / 10\<bar> (- 1022) 11 = - 4" by (rule binade_eqI) simp_all
  have "fl (1 / 10) = Num (of_int 7205759403792794 * 2 powi (- 4 - 52))"
    by (rule fl_eqI[OF b]) simp_all
  then show ?thesis by simp
qed

lemma fl_0_1_c2: "fl (1 / 5) \<noteq> Num (3602879701896397 / 36028797018963968)"
proof -
  have b: "largest_exp 2 \<bar>1 / 5\<bar> (- 1022) 11 = - 3" by (rule binade_eqI) simp_all
  show ?thesis by (rule fl_neqI[OF b]) simp
qed

lemma shortest_0_1: "shortest (3602879701896397 / 36028797018963968) 1 17 = Some (0, 1, 1)"
  by (simp add: eval_nat_numeral candidates_def decade_0_1 fl_0_1 fl_0_1_c1 fl_0_1_c2)

lemma toString_0_1: "positive_toString (3602879701896397 / 36028797018963968) = ''0.1''"
  unfolding positive_toString_def shortest_0_1 by (simp add: eval_nat_numeral digits_1)

text \<open>The number 0.2.\<close>

lemma fl_0_2: "fl (3602879701896397 / 18014398509481984) = Num (3602879701896397 / 18014398509481984)"
  using fl_exact[of 3602879701896397 "- 54"] by simp

lemma decade_0_2: "largest_exp 10 (3602879701896397 / 18014398509481984) (- 324) 10 = - 1"
  by (rule decade_eqI) simp_all

lemma fl_0_2_c1: "fl (1 / 5) = Num (3602879701896397 / 18014398509481984)"
proof -
  have b: "largest_exp 2 \<bar>1 / 5\<bar> (- 1022) 11 = - 3" by (rule binade_eqI) simp_all
  have "fl (1 / 5) = Num (of_int 7205759403792794 * 2 powi (- 3 - 52))"
    by (rule fl_eqI[OF b]) simp_all
  then show ?thesis by simp
qed

lemma fl_0_2_c2: "fl (3 / 10) \<noteq> Num (3602879701896397 / 18014398509481984)"
proof -
  have b: "largest_exp 2 \<bar>3 / 10\<bar> (- 1022) 11 = - 2" by (rule binade_eqI) simp_all
  show ?thesis by (rule fl_neqI[OF b]) simp
qed

lemma shortest_0_2: "shortest (3602879701896397 / 18014398509481984) 1 17 = Some (0, 1, 2)"
  by (simp add: eval_nat_numeral candidates_def decade_0_2 fl_0_2 fl_0_2_c1 fl_0_2_c2)

lemma digits_2: "int_digits 2 = ''2''"
  by (simp add: int_digits.simps digit_char_def)

lemma toString_0_2: "positive_toString (3602879701896397 / 18014398509481984) = ''0.2''"
  unfolding positive_toString_def shortest_0_2 by (simp add: eval_nat_numeral digits_2)

text \<open>The number 0.3.\<close>

lemma fl_0_3: "fl (5404319552844595 / 18014398509481984) = Num (5404319552844595 / 18014398509481984)"
  using fl_exact[of 5404319552844595 "- 54"] by simp

lemma decade_0_3: "largest_exp 10 (5404319552844595 / 18014398509481984) (- 324) 10 = - 1"
  by (rule decade_eqI) simp_all

lemma fl_0_3_c1: "fl (1 / 5) \<noteq> Num (5404319552844595 / 18014398509481984)"
proof -
  have b: "largest_exp 2 \<bar>1 / 5\<bar> (- 1022) 11 = - 3" by (rule binade_eqI) simp_all
  show ?thesis by (rule fl_neqI[OF b]) simp
qed

lemma fl_0_3_c2: "fl (3 / 10) = Num (5404319552844595 / 18014398509481984)"
proof -
  have b: "largest_exp 2 \<bar>3 / 10\<bar> (- 1022) 11 = - 2" by (rule binade_eqI) simp_all
  have "fl (3 / 10) = Num (of_int 5404319552844595 * 2 powi (- 2 - 52))"
    by (rule fl_eqI[OF b]) simp_all
  then show ?thesis by simp
qed

lemma shortest_0_3: "shortest (5404319552844595 / 18014398509481984) 1 17 = Some (0, 1, 3)"
  by (simp add: eval_nat_numeral candidates_def decade_0_3 fl_0_3 fl_0_3_c1 fl_0_3_c2)

lemma digits_3: "int_digits 3 = ''3''"
  by (simp add: int_digits.simps digit_char_def)

lemma toString_0_3: "positive_toString (5404319552844595 / 18014398509481984) = ''0.3''"
  unfolding positive_toString_def shortest_0_3 by (simp add: eval_nat_numeral digits_3)

text \<open>The number 10.555.\<close>

lemma fl_10_555: "fl (1485484189590487 / 140737488355328) = Num (1485484189590487 / 140737488355328)"
  using fl_exact[of 1485484189590487 "- 47"] by simp

lemma decade_10_555: "largest_exp 10 (1485484189590487 / 140737488355328) (- 324) 10 = 1"
  by (rule decade_eqI) simp_all

lemma fl_10_555_c5: "fl (21 / 2) \<noteq> Num (1485484189590487 / 140737488355328)"
proof -
  have b: "largest_exp 2 \<bar>21 / 2\<bar> (- 1022) 11 = 3" by (rule binade_eqI) simp_all
  show ?thesis by (rule fl_neqI[OF b]) simp
qed

lemma fl_10_555_c6: "fl (53 / 5) \<noteq> Num (1485484189590487 / 140737488355328)"
proof -
  have b: "largest_exp 2 \<bar>53 / 5\<bar> (- 1022) 11 = 3" by (rule binade_eqI) simp_all
  show ?thesis by (rule fl_neqI[OF b]) simp
qed

lemma fl_10_555_c7: "fl (211 / 20) \<noteq> Num (1485484189590487 / 140737488355328)"
proof -
  have b: "largest_exp 2 \<bar>211 / 20\<bar> (- 1022) 11 = 3" by (rule binade_eqI) simp_all
  show ?thesis by (rule fl_neqI[OF b]) simp
qed

lemma fl_10_555_c8: "fl (264 / 25) \<noteq> Num (1485484189590487 / 140737488355328)"
proof -
  have b: "largest_exp 2 \<bar>264 / 25\<bar> (- 1022) 11 = 3" by (rule binade_eqI) simp_all
  show ?thesis by (rule fl_neqI[OF b]) simp
qed

lemma fl_10_555_c9: "fl (5277 / 500) \<noteq> Num (1485484189590487 / 140737488355328)"
proof -
  have b: "largest_exp 2 \<bar>5277 / 500\<bar> (- 1022) 11 = 3" by (rule binade_eqI) simp_all
  show ?thesis by (rule fl_neqI[OF b]) simp
qed

lemma fl_10_555_c10: "fl (2111 / 200) = Num (1485484189590487 / 140737488355328)"
proof -
  have b: "largest_exp 2 \<bar>2111 / 200\<bar> (- 1022) 11 = 3" by (rule binade_eqI) simp_all
  have "fl (2111 / 200) = Num (of_int 5941936758361948 * 2 powi (3 - 52))"
    by (rule fl_eqI[OF b]) simp_all
  then show ?thesis by simp
qed

lemma shortest_10_555: "shortest (1485484189590487 / 140737488355328) 1 17 = Some (2, 5, 10555)"
  by (simp add: eval_nat_numeral candidates_def decade_10_555 fl_10_555 fl_10_555_c5 fl_10_555_c6 fl_10_555_c7 fl_10_555_c8 fl_10_555_c9 fl_10_555_c10)

lemma digits_10555: "int_digits 10555 = ''10555''"
  by (simp add: int_digits.simps digit_char_def)

lemma toString_10_555: "positive_toString (1485484189590487 / 140737488355328) = ''10.555''"
  unfolding positive_toString_def shortest_10_555 by (simp add: eval_nat_numeral digits_10555)

text \<open>The number 1.\<close>

lemma fl_n1: "fl (1) = Num (1)"
  by simp

lemma decade_n1: "largest_exp 10 (1) (- 324) 10 = 0"
  by (rule decade_eqI) simp_all

lemma shortest_n1: "shortest (1) 1 17 = Some (1, 1, 1)"
  by (simp add: eval_nat_numeral candidates_def decade_n1 fl_n1)

lemma toString_n1: "positive_toString (1) = ''1''"
  unfolding positive_toString_def shortest_n1 by (simp add: eval_nat_numeral digits_1)

text \<open>The number 1000.\<close>

lemma fl_n1000: "fl (1000) = Num (1000)"
  by simp

lemma decade_n1000: "largest_exp 10 (1000) (- 324) 10 = 3"
  by (rule decade_eqI) simp_all

lemma shortest_n1000: "shortest (1000) 1 17 = Some (4, 1, 1)"
  by (simp add: eval_nat_numeral candidates_def decade_n1000 fl_n1000)

lemma toString_n1000: "positive_toString (1000) = ''1000''"
  unfolding positive_toString_def shortest_n1000 by (simp add: eval_nat_numeral digits_1)

text \<open>The number 1100.\<close>

lemma fl_n1100: "fl (1100) = Num (1100)"
  by simp

lemma decade_n1100: "largest_exp 10 (1100) (- 324) 10 = 3"
  by (rule decade_eqI) simp_all

lemma shortest_n1100: "shortest (1100) 1 17 = Some (4, 2, 11)"
  by (simp add: eval_nat_numeral candidates_def decade_n1100 fl_n1100)

lemma digits_11: "int_digits 11 = ''11''"
  by (simp add: int_digits.simps digit_char_def)

lemma toString_n1100: "positive_toString (1100) = ''1100''"
  unfolding positive_toString_def shortest_n1100 by (simp add: eval_nat_numeral digits_11)

text \<open>The number 4000.\<close>

lemma fl_n4000: "fl (4000) = Num (4000)"
  by simp

lemma decade_n4000: "largest_exp 10 (4000) (- 324) 10 = 3"
  by (rule decade_eqI) simp_all

lemma shortest_n4000: "shortest (4000) 1 17 = Some (4, 1, 4)"
  by (simp add: eval_nat_numeral candidates_def decade_n4000 fl_n4000)

lemma digits_4: "int_digits 4 = ''4''"
  by (simp add: int_digits.simps digit_char_def)

lemma toString_n4000: "positive_toString (4000) = ''4000''"
  unfolding positive_toString_def shortest_n4000 by (simp add: eval_nat_numeral digits_4)

text \<open>The number 5000.\<close>

lemma fl_n5000: "fl (5000) = Num (5000)"
  by simp

lemma decade_n5000: "largest_exp 10 (5000) (- 324) 10 = 3"
  by (rule decade_eqI) simp_all

lemma shortest_n5000: "shortest (5000) 1 17 = Some (4, 1, 5)"
  by (simp add: eval_nat_numeral candidates_def decade_n5000 fl_n5000)

lemma digits_5: "int_digits 5 = ''5''"
  by (simp add: int_digits.simps digit_char_def)

lemma toString_n5000: "positive_toString (5000) = ''5000''"
  unfolding positive_toString_def shortest_n5000 by (simp add: eval_nat_numeral digits_5)

text \<open>The number 6000.\<close>

lemma fl_n6000: "fl (6000) = Num (6000)"
  by simp

lemma decade_n6000: "largest_exp 10 (6000) (- 324) 10 = 3"
  by (rule decade_eqI) simp_all

lemma shortest_n6000: "shortest (6000) 1 17 = Some (4, 1, 6)"
  by (simp add: eval_nat_numeral candidates_def decade_n6000 fl_n6000)

lemma digits_6: "int_digits 6 = ''6''"
  by (simp add: int_digits.simps digit_char_def)

lemma toString_n6000: "positive_toString (6000) = ''6000''"
  unfolding positive_toString_def shortest_n6000 by (simp add: eval_nat_numeral digits_6)

text \<open>The literals 1e-7, 0.1, 0.2, 0.3 and 10.555 denote these numbers.\<close>

lemma literal_1em7: "fl (1 / 10000000) = Num (944473296573929 / 9444732965739290427392)"
proof -
  have b: "largest_exp 2 \<bar>1 / 10000000\<bar> (- 1022) 11 = - 24" by (rule binade_eqI) simp_all
  have "fl (1 / 10000000) = Num (of_int 7555786372591432 * 2 powi (- 24 - 52))"
    by (rule fl_eqI[OF b]) simp_all
  then show ?thesis by simp
qed

lemma literal_0_1: "fl (1 / 10) = Num (3602879701896397 / 36028797018963968)"
proof -
  have b: "largest_exp 2 \<bar>1 / 10\<bar> (- 1022) 11 = - 4" by (rule binade_eqI) simp_all
  have "fl (1 / 10) = Num (of_int 7205759403792794 * 2 powi (- 4 - 52))"
    by (rule fl_eqI[OF b]) simp_all
  then show ?thesis by simp
qed

lemma literal_0_2: "fl (1 / 5) = Num (3602879701896397 / 18014398509481984)"
proof -
  have b: "largest_exp 2 \<bar>1 / 5\<bar> (- 1022) 11 = - 3" by (rule binade_eqI) simp_all
  have "fl (1 / 5) = Num (of_int 7205759403792794 * 2 powi (- 3 - 52))"
    by (rule fl_eqI[OF b]) simp_all
  then show ?thesis by simp
qed

lemma literal_0_3: "fl (3 / 10) = Num (5404319552844595 / 18014398509481984)"
proof -
  have b: "largest_exp 2 \<bar>3 / 10\<bar> (- 1022) 11 = - 2" by (rule binade_eqI) simp_all
  have "fl (3 / 10) = Num (of_int 5404319552844595 * 2 powi (- 2 - 52))"
    by (rule fl_eqI[OF b]) simp_all
  then show ?thesis by simp
qed

lemma literal_10_555: "fl (2111 / 200) = Num (1485484189590487 / 140737488355328)"
proof -
  have b: "largest_exp 2 \<bar>2111 / 200\<bar> (- 1022) 11 = 3" by (rule binade_eqI) simp_all
  have "fl (2111 / 200) = Num (of_int 5941936758361948 * 2 powi (3 - 52))"
    by (rule fl_eqI[OF b]) simp_all
  then show ?thesis by simp
qed

text \<open>0.1 + 0.2 is 0.30000000000000004.\<close>

lemma fl_0_1_plus_0_2_sum: "fl (10808639105689191 / 36028797018963968) = Num (1351079888211149 / 4503599627370496)"
proof -
  have b: "largest_exp 2 \<bar>10808639105689191 / 36028797018963968\<bar> (- 1022) 11 = - 2" by (rule binade_eqI) simp_all
  have "fl (10808639105689191 / 36028797018963968) = Num (of_int 5404319552844596 * 2 powi (- 2 - 52))"
    by (rule fl_eqI_tie[OF b, of 5404319552844595]) simp_all
  then show ?thesis by simp
qed

lemma sum_0_1_0_2: "num_add (Num (3602879701896397 / 36028797018963968)) (Num (3602879701896397 / 18014398509481984)) = Num (1351079888211149 / 4503599627370496)"
  by (simp add: fl_0_1_plus_0_2_sum)

text \<open>The number 0.30000000000000004.\<close>

lemma fl_0_1_plus_0_2: "fl (1351079888211149 / 4503599627370496) = Num (1351079888211149 / 4503599627370496)"
  using fl_exact[of 1351079888211149 "- 52"] by simp

lemma decade_0_1_plus_0_2: "largest_exp 10 (1351079888211149 / 4503599627370496) (- 324) 10 = - 1"
  by (rule decade_eqI) simp_all

lemma fl_0_1_plus_0_2_c1: "fl (3 / 10) \<noteq> Num (1351079888211149 / 4503599627370496)"
proof -
  have b: "largest_exp 2 \<bar>3 / 10\<bar> (- 1022) 11 = - 2" by (rule binade_eqI) simp_all
  show ?thesis by (rule fl_neqI[OF b]) simp
qed

lemma fl_0_1_plus_0_2_c2: "fl (2 / 5) \<noteq> Num (1351079888211149 / 4503599627370496)"
proof -
  have b: "largest_exp 2 \<bar>2 / 5\<bar> (- 1022) 11 = - 2" by (rule binade_eqI) simp_all
  show ?thesis by (rule fl_neqI[OF b]) simp
qed

lemma fl_0_1_plus_0_2_c4: "fl (31 / 100) \<noteq> Num (1351079888211149 / 4503599627370496)"
proof -
  have b: "largest_exp 2 \<bar>31 / 100\<bar> (- 1022) 11 = - 2" by (rule binade_eqI) simp_all
  show ?thesis by (rule fl_neqI[OF b]) simp
qed

lemma fl_0_1_plus_0_2_c5: "fl (301 / 1000) \<noteq> Num (1351079888211149 / 4503599627370496)"
proof -
  have b: "largest_exp 2 \<bar>301 / 1000\<bar> (- 1022) 11 = - 2" by (rule binade_eqI) simp_all
  show ?thesis by (rule fl_neqI[OF b]) simp
qed

lemma candidates_0_1_plus_0_2_1: "candidates (1351079888211149 / 4503599627370496) 1 = []"
  by (simp add: candidates_def decade_0_1_plus_0_2 fl_0_1_plus_0_2 fl_0_1_plus_0_2_c1 fl_0_1_plus_0_2_c2 fl_0_1_plus_0_2_c4 fl_0_1_plus_0_2_c5)

lemma candidates_0_1_plus_0_2_2: "candidates (1351079888211149 / 4503599627370496) 2 = []"
  by (simp add: candidates_def decade_0_1_plus_0_2 fl_0_1_plus_0_2 fl_0_1_plus_0_2_c1 fl_0_1_plus_0_2_c2 fl_0_1_plus_0_2_c4 fl_0_1_plus_0_2_c5)

lemma candidates_0_1_plus_0_2_3: "candidates (1351079888211149 / 4503599627370496) 3 = []"
  by (simp add: candidates_def decade_0_1_plus_0_2 fl_0_1_plus_0_2 fl_0_1_plus_0_2_c1 fl_0_1_plus_0_2_c2 fl_0_1_plus_0_2_c4 fl_0_1_plus_0_2_c5)

lemma fl_0_1_plus_0_2_digits: "fl (7500000000000001 / 25000000000000000) = Num (1351079888211149 / 4503599627370496)"
proof -
  have b: "largest_exp 2 \<bar>7500000000000001 / 25000000000000000\<bar> (- 1022) 11 = - 2" by (rule binade_eqI) simp_all
  have "fl (7500000000000001 / 25000000000000000) = Num (of_int 5404319552844596 * 2 powi (- 2 - 52))"
    by (rule fl_eqI[OF b]) simp_all
  then show ?thesis by simp
qed

lemma candidates_0_1_plus_0_2_17: "candidates (1351079888211149 / 4503599627370496) 17 \<noteq> []"
  by (simp add: candidates_def decade_0_1_plus_0_2 fl_0_1_plus_0_2 fl_0_1_plus_0_2_digits)

text \<open>0.3 - 0.1 is 0.19999999999999998.\<close>

lemma fl_0_3_minus_0_1_difference: "fl (7205759403792793 / 36028797018963968) = Num (7205759403792793 / 36028797018963968)"
  using fl_exact[of 7205759403792793 "- 55"] by simp

lemma difference_0_3_0_1: "num_sub (Num (5404319552844595 / 18014398509481984)) (Num (3602879701896397 / 36028797018963968)) = Num (7205759403792793 / 36028797018963968)"
  by (simp add: num_sub_def fl_0_3_minus_0_1_difference)

text \<open>The number 0.19999999999999998.\<close>

lemma fl_0_3_minus_0_1: "fl (7205759403792793 / 36028797018963968) = Num (7205759403792793 / 36028797018963968)"
  using fl_exact[of 7205759403792793 "- 55"] by simp

lemma decade_0_3_minus_0_1: "largest_exp 10 (7205759403792793 / 36028797018963968) (- 324) 10 = - 1"
  by (rule decade_eqI) simp_all

lemma fl_0_3_minus_0_1_c1: "fl (1 / 10) \<noteq> Num (7205759403792793 / 36028797018963968)"
proof -
  have b: "largest_exp 2 \<bar>1 / 10\<bar> (- 1022) 11 = - 4" by (rule binade_eqI) simp_all
  show ?thesis by (rule fl_neqI[OF b]) simp
qed

lemma fl_0_3_minus_0_1_c2: "fl (1 / 5) \<noteq> Num (7205759403792793 / 36028797018963968)"
proof -
  have b: "largest_exp 2 \<bar>1 / 5\<bar> (- 1022) 11 = - 3" by (rule binade_eqI) simp_all
  show ?thesis by (rule fl_neqI[OF b]) simp
qed

lemma fl_0_3_minus_0_1_c4: "fl (19 / 100) \<noteq> Num (7205759403792793 / 36028797018963968)"
proof -
  have b: "largest_exp 2 \<bar>19 / 100\<bar> (- 1022) 11 = - 3" by (rule binade_eqI) simp_all
  show ?thesis by (rule fl_neqI[OF b]) simp
qed

lemma fl_0_3_minus_0_1_c5: "fl (199 / 1000) \<noteq> Num (7205759403792793 / 36028797018963968)"
proof -
  have b: "largest_exp 2 \<bar>199 / 1000\<bar> (- 1022) 11 = - 3" by (rule binade_eqI) simp_all
  show ?thesis by (rule fl_neqI[OF b]) simp
qed

lemma candidates_0_3_minus_0_1_1: "candidates (7205759403792793 / 36028797018963968) 1 = []"
  by (simp add: candidates_def decade_0_3_minus_0_1 fl_0_3_minus_0_1 fl_0_3_minus_0_1_c1 fl_0_3_minus_0_1_c2 fl_0_3_minus_0_1_c4 fl_0_3_minus_0_1_c5)

lemma candidates_0_3_minus_0_1_2: "candidates (7205759403792793 / 36028797018963968) 2 = []"
  by (simp add: candidates_def decade_0_3_minus_0_1 fl_0_3_minus_0_1 fl_0_3_minus_0_1_c1 fl_0_3_minus_0_1_c2 fl_0_3_minus_0_1_c4 fl_0_3_minus_0_1_c5)

lemma candidates_0_3_minus_0_1_3: "candidates (7205759403792793 / 36028797018963968) 3 = []"
  by (simp add: candidates_def decade_0_3_minus_0_1 fl_0_3_minus_0_1 fl_0_3_minus_0_1_c1 fl_0_3_minus_0_1_c2 fl_0_3_minus_0_1_c4 fl_0_3_minus_0_1_c5)

lemma fl_0_3_minus_0_1_digits: "fl (9999999999999999 / 50000000000000000) = Num (7205759403792793 / 36028797018963968)"
proof -
  have b: "largest_exp 2 \<bar>9999999999999999 / 50000000000000000\<bar> (- 1022) 11 = - 3" by (rule binade_eqI) simp_all
  have "fl (9999999999999999 / 50000000000000000) = Num (of_int 7205759403792793 * 2 powi (- 3 - 52))"
    by (rule fl_eqI[OF b]) simp_all
  then show ?thesis by simp
qed

lemma candidates_0_3_minus_0_1_17: "candidates (7205759403792793 / 36028797018963968) 17 \<noteq> []"
  by (simp add: candidates_def decade_0_3_minus_0_1 fl_0_3_minus_0_1 fl_0_3_minus_0_1_digits)

text \<open>0.5 / 100 is 0.005, and 1 + 1 * 0.005 is 1.005.\<close>

lemma fl_1_200: "fl (1 / 200) = Num (5764607523034235 / 1152921504606846976)"
proof -
  have b: "largest_exp 2 \<bar>1 / 200\<bar> (- 1022) 11 = - 8" by (rule binade_eqI) simp_all
  have "fl (1 / 200) = Num (of_int 5764607523034235 * 2 powi (- 8 - 52))"
    by (rule fl_eqI[OF b]) simp_all
  then show ?thesis by simp
qed

lemma fl_0_005: "fl (5764607523034235 / 1152921504606846976) = Num (5764607523034235 / 1152921504606846976)"
  using fl_exact[of 5764607523034235 "- 60"] by simp

lemma fl_1_plus_0_005: "fl (1158686112129881211 / 1152921504606846976) = Num (1131529406376837 / 1125899906842624)"
proof -
  have b: "largest_exp 2 \<bar>1158686112129881211 / 1152921504606846976\<bar> (- 1022) 11 = 0" by (rule binade_eqI) simp_all
  have "fl (1158686112129881211 / 1152921504606846976) = Num (of_int 4526117625507348 * 2 powi (0 - 52))"
    by (rule fl_eqI[OF b]) simp_all
  then show ?thesis by simp
qed

text \<open>The number 1.005.\<close>

lemma fl_1_005: "fl (1131529406376837 / 1125899906842624) = Num (1131529406376837 / 1125899906842624)"
  using fl_exact[of 1131529406376837 "- 50"] by simp

lemma decade_1_005: "largest_exp 10 (1131529406376837 / 1125899906842624) (- 324) 10 = 0"
  by (rule decade_eqI) simp_all

lemma fl_1_005_c4: "fl (11 / 10) \<noteq> Num (1131529406376837 / 1125899906842624)"
proof -
  have b: "largest_exp 2 \<bar>11 / 10\<bar> (- 1022) 11 = 0" by (rule binade_eqI) simp_all
  show ?thesis by (rule fl_neqI[OF b]) simp
qed

lemma fl_1_005_c5: "fl (101 / 100) \<noteq> Num (1131529406376837 / 1125899906842624)"
proof -
  have b: "largest_exp 2 \<bar>101 / 100\<bar> (- 1022) 11 = 0" by (rule binade_eqI) simp_all
  show ?thesis by (rule fl_neqI[OF b]) simp
qed

lemma fl_1_005_c6: "fl (251 / 250) \<noteq> Num (1131529406376837 / 1125899906842624)"
proof -
  have b: "largest_exp 2 \<bar>251 / 250\<bar> (- 1022) 11 = 0" by (rule binade_eqI) simp_all
  show ?thesis by (rule fl_neqI[OF b]) simp
qed

lemma fl_1_005_c7: "fl (201 / 200) = Num (1131529406376837 / 1125899906842624)"
proof -
  have b: "largest_exp 2 \<bar>201 / 200\<bar> (- 1022) 11 = 0" by (rule binade_eqI) simp_all
  have "fl (201 / 200) = Num (of_int 4526117625507348 * 2 powi (0 - 52))"
    by (rule fl_eqI[OF b]) simp_all
  then show ?thesis by simp
qed

lemma shortest_1_005: "shortest (1131529406376837 / 1125899906842624) 1 17 = Some (1, 4, 1005)"
  by (simp add: eval_nat_numeral candidates_def decade_1_005 fl_1_005 fl_1_005_c4 fl_1_005_c5 fl_1_005_c6 fl_1_005_c7)

lemma digits_1005: "int_digits 1005 = ''1005''"
  by (simp add: int_digits.simps digit_char_def)

lemma toString_1_005: "positive_toString (1131529406376837 / 1125899906842624) = ''1.005''"
  unfolding positive_toString_def shortest_1_005 by (simp add: eval_nat_numeral digits_1005)

text \<open>10 / 100 is 0.1, and 1000 * 0.1 is 100.\<close>

lemma fl_1000_times_0_1: "fl (450359962737049625 / 4503599627370496) = Num (100)"
proof -
  have b: "largest_exp 2 \<bar>450359962737049625 / 4503599627370496\<bar> (- 1022) 11 = 6" by (rule binade_eqI) simp_all
  have "fl (450359962737049625 / 4503599627370496) = Num (of_int 7036874417766400 * 2 powi (6 - 52))"
    by (rule fl_eqI[OF b]) simp_all
  then show ?thesis by simp
qed


subsection \<open>Decimal places and constructor results\<close>


lemma decimalPlaces_NaN: "decimalPlaces NaN = 0"
  by (simp add: decimalPlaces_def)

lemma decimalPlaces_PosInfinity: "decimalPlaces PosInfinity = 0"
  by (simp add: decimalPlaces_def)

lemma new_Salary_NaN: "new_Salary NaN = Inr \<lparr>amount = NaN\<rparr>"
  by (simp add: new_Salary_Inr validateAmount_Inr decimalPlaces_NaN)

lemma new_Salary_PosInfinity: "new_Salary PosInfinity = Inr \<lparr>amount = PosInfinity\<rparr>"
  by (simp add: new_Salary_Inr validateAmount_Inr decimalPlaces_PosInfinity)

lemma decimalPlaces_1em7: "decimalPlaces (fl (1 / 10000000)) = 0"
  by (simp add: literal_1em7 decimalPlaces_def toString_1em7)

lemma decimalPlaces_0_1: "decimalPlaces (fl (1 / 10)) = 1"
  by (simp add: literal_0_1 decimalPlaces_def toString_0_1)

lemma decimalPlaces_0_2: "decimalPlaces (fl (2 / 10)) = 1"
  by (simp add: literal_0_2 decimalPlaces_def toString_0_2)

lemma decimalPlaces_0_3: "decimalPlaces (fl (3 / 10)) = 1"
  by (simp add: literal_0_3 decimalPlaces_def toString_0_3)

lemma decimalPlaces_10_555: "decimalPlaces (fl (10555 / 1000)) = 3"
  by (simp add: literal_10_555 decimalPlaces_def toString_10_555)

lemma decimalPlaces_1: "decimalPlaces (Num 1) = 0"
  by (simp add: decimalPlaces_def toString_n1)

lemma decimalPlaces_1000: "decimalPlaces (Num 1000) = 0"
  by (simp add: decimalPlaces_def toString_n1000)

lemma decimalPlaces_1100: "decimalPlaces (Num 1100) = 0"
  by (simp add: decimalPlaces_def toString_n1100)

lemma decimalPlaces_4000: "decimalPlaces (Num 4000) = 0"
  by (simp add: decimalPlaces_def toString_n4000)

lemma decimalPlaces_5000: "decimalPlaces (Num 5000) = 0"
  by (simp add: decimalPlaces_def toString_n5000)

lemma decimalPlaces_6000: "decimalPlaces (Num 6000) = 0"
  by (simp add: decimalPlaces_def toString_n6000)

lemma decimalPlaces_1_005: "decimalPlaces (Num (1131529406376837 / 1125899906842624)) = 3"
  by (simp add: decimalPlaces_def toString_1_005)

lemma decimalPlaces_1_5e21: "decimalPlaces (Num 1500000000000000000000) = 5"
  by (simp add: decimalPlaces_def toString_1_5e21)

lemma decimalPlaces_0_1_plus_0_2:
  "2 < decimalPlaces (Num (1351079888211149 / 4503599627370496))"
  by (rule decimalPlaces_at_least_3[OF _ decade_0_1_plus_0_2 _ _
        candidates_0_1_plus_0_2_1 candidates_0_1_plus_0_2_2 candidates_0_1_plus_0_2_3
        candidates_0_1_plus_0_2_17]) simp_all

lemma decimalPlaces_0_3_minus_0_1:
  "2 < decimalPlaces (Num (7205759403792793 / 36028797018963968))"
  by (rule decimalPlaces_at_least_3[OF _ decade_0_3_minus_0_1 _ _
        candidates_0_3_minus_0_1_1 candidates_0_3_minus_0_1_2 candidates_0_3_minus_0_1_3
        candidates_0_3_minus_0_1_17]) simp_all


lemma new_Salary_5000: "new_Salary (Num 5000) = Inr \<lparr>amount = Num 5000\<rparr>"
  by (simp add: new_Salary_Inr validateAmount_Inr decimalPlaces_5000)

lemma new_Salary_6000: "new_Salary (Num 6000) = Inr \<lparr>amount = Num 6000\<rparr>"
  by (simp add: new_Salary_Inr validateAmount_Inr decimalPlaces_6000)

lemma validateAmount_1000: "validateAmount (Num 1000) = Inr ()"
  by (simp add: validateAmount_Inr decimalPlaces_1000)

lemma new_Salary_1000: "new_Salary (Num 1000) = Inr \<lparr>amount = Num 1000\<rparr>"
  by (simp add: new_Salary_Inr validateAmount_1000)

lemma new_Salary_1: "new_Salary (Num 1) = Inr \<lparr>amount = Num 1\<rparr>"
  by (simp add: new_Salary_Inr validateAmount_Inr decimalPlaces_1)

lemma new_Salary_0_1: "new_Salary (fl (1 / 10)) = Inr \<lparr>amount = fl (1 / 10)\<rparr>"
  using decimalPlaces_0_1 by (simp add: new_Salary_Inr validateAmount_Inr literal_0_1)

lemma new_Salary_0_3: "new_Salary (fl (3 / 10)) = Inr \<lparr>amount = fl (3 / 10)\<rparr>"
  using decimalPlaces_0_3 by (simp add: new_Salary_Inr validateAmount_Inr literal_0_3)

lemma new_Salary_1em7: "new_Salary (fl (1 / 10000000)) = Inr \<lparr>amount = fl (1 / 10000000)\<rparr>"
  using decimalPlaces_1em7 by (simp add: new_Salary_Inr validateAmount_Inr literal_1em7)

lemma validateAmount_0_2: "validateAmount (fl (2 / 10)) = Inr ()"
  using decimalPlaces_0_2 by (simp add: validateAmount_Inr literal_0_2)

lemma validateAdjustment_0_1: "validateAdjustment (fl (1 / 10)) = Inr ()"
  using decimalPlaces_0_1 by (simp add: validateAdjustment_Inr literal_0_1)

lemma addAmount_5000_1000:
  "addAmount \<lparr>amount = Num 5000\<rparr> (Num 1000) = Inr \<lparr>amount = Num 6000\<rparr>"
  by (simp add: addAmount_def validateAmount_1000 new_Salary_6000)





lemma fl_neg_1000: "fl (- 1000) = Num (- 1000)"
  using fl_of_int[of "- 1000"] by simp

lemma validateAdjustment_zero: "validateAdjustment (Num 0) = Inr ()"
  by (simp add: validateAdjustment_Inr decimalPlaces_def)

lemma new_Salary_4000: "new_Salary (Num 4000) = Inr \<lparr>amount = Num 4000\<rparr>"
  by (simp add: new_Salary_Inr validateAmount_Inr decimalPlaces_4000)

lemma validateAdjustment_1000: "validateAdjustment (Num 1000) = Inr ()"
  by (simp add: validateAdjustment_Inr decimalPlaces_1000)

lemma validateAdjustment_6000: "validateAdjustment (Num 6000) = Inr ()"
  by (simp add: validateAdjustment_Inr decimalPlaces_6000)




lemma new_Salary_1100: "new_Salary (Num 1100) = Inr \<lparr>amount = Num 1100\<rparr>"
  by (simp add: new_Salary_Inr validateAmount_Inr decimalPlaces_1100)

lemma increase_1000_by_10:
  "num_add (Num 1000) (num_mul (Num 1000) (num_div (Num 10) (Num 100))) = Num 1100"
  by (simp add: literal_0_1 fl_1000_times_0_1)

lemma increase_1_by_half:
  "num_add (Num 1) (num_mul (Num 1) (num_div (fl (1 / 2)) (Num 100)))
     = Num (1131529406376837 / 1125899906842624)"
proof -
  have "fl (1 / 2) = Num (1 / 2)" using fl_exact[of 1 "- 1"] by simp
  then show ?thesis by (simp add: fl_1_200 fl_0_005 fl_1_plus_0_005)
qed

section \<open>EmployeeRegistration: the claims\<close>

subsection \<open>C4\<close>

text \<open>
  C4 as claimed: every registration number above zero with a fractional component is
  rejected with the not-an-integer error, 123456.5 in particular. The constructor tests the
  length of the printed number before it tests whether the number is whole, and the printed
  form of 123456.5 has eight characters: it is rejected with the length error.
\<close>

theorem C4_counterexample:
  "num_gt (Num (246913 / 2)) (Num 0) \<and> has_fraction (Num (246913 / 2)) \<and>
   is_number (Num (246913 / 2)) \<and> toString (Num (246913 / 2)) = ''123456.5'' \<and>
   new_EmployeeRegistration (Num (246913 / 2)) = Inl RegistrationBadLength \<and>
   new_EmployeeRegistration (Num (246913 / 2)) \<noteq> Inl RegistrationNotInteger"
  by (simp add: num_gt_def is_number_def fl_123456_5 toString_123456_5 num_le_def
      new_EmployeeRegistration_def validateRegistrationNumber_def
      RegistrationBadLength_def RegistrationNotInteger_def)

text \<open>
  C4, amended: every registration number above zero with a fractional component is rejected;
  with the length error when its printed form (decimal point and fractional digits
  included) does not have five or six characters, and with the not-an-integer error
  otherwise.
\<close>

theorem C4_fractional_rejected:
  assumes "num_gt r (Num 0)" and "has_fraction r"
  shows "new_EmployeeRegistration r =
     Inl (if length (toString r) < 5 \<or> 6 < length (toString r)
          then RegistrationBadLength else RegistrationNotInteger)"
proof -
  from assms(2) obtain x where r: "r = Num x" and x: "of_int \<lfloor>x\<rfloor> \<noteq> x"
    by (cases r) auto
  from assms(1) r have "0 < x" by (simp add: num_gt_def)
  then have "\<not> num_le r (Num 0)" by (simp add: r num_le_def)
  moreover have "\<not> isInteger r" using x by (simp add: r)
  ultimately show ?thesis
    by (simp add: new_EmployeeRegistration_def validateRegistrationNumber_def Let_def)
qed

theorem C4_fractional_rejected_witness:
  "num_gt (Num (2469 / 2)) (Num 0) \<and> has_fraction (Num (2469 / 2)) \<and>
   toString (Num (2469 / 2)) = ''1234.5'' \<and>
   new_EmployeeRegistration (Num (2469 / 2)) = Inl RegistrationNotInteger"
proof -
  have 1: "num_gt (Num (2469 / 2)) (Num 0)" by (simp add: num_gt_def)
  have 2: "has_fraction (Num (2469 / 2))" by simp
  have 3: "toString (Num (2469 / 2)) = ''1234.5''" by (simp add: toString_1234_5)
  show ?thesis using C4_fractional_rejected[OF 1 2] 1 2 3 by simp
qed

subsection \<open>C5\<close>

text \<open>
  C5: for every whole number \<open>n\<close> from 10000 to 999999 the constructor succeeds, and
  \<open>getValue\<close> of the new object returns exactly \<open>n\<close>.
\<close>

theorem C5_five_or_six_digits_accepted:
  assumes "10000 \<le> n" and "n \<le> 999999"
  shows "\<exists>r. new_EmployeeRegistration (Num (of_int n)) = Inr r \<and> getValue r = Num (of_int n)"
  using new_EmployeeRegistration_integer[OF assms] by (simp add: getValue_def)

theorem C5_five_or_six_digits_accepted_witness:
  "(10000::int) \<le> 12345 \<and> (12345::int) \<le> 999999 \<and>
   (\<exists>r. new_EmployeeRegistration (Num 12345) = Inr r \<and> getValue r = Num 12345)"
  using C5_five_or_six_digits_accepted[of 12345] by simp

subsection \<open>C6\<close>

text \<open>
  C6: every registration number that is zero or below is rejected with the not-positive
  error, whatever its length and whether or not it is whole. The constructor tests
  non-positivity first, then the length, then integrality, and the first test that fails
  decides the error.
\<close>

theorem C6_first_failing_check_reported:
  "(num_le r (Num 0) \<longrightarrow> new_EmployeeRegistration r = Inl RegistrationNotPositive) \<and>
   (\<not> num_le r (Num 0) \<and> (length (toString r) < 5 \<or> 6 < length (toString r)) \<longrightarrow>
      new_EmployeeRegistration r = Inl RegistrationBadLength) \<and>
   (\<not> num_le r (Num 0) \<and> 5 \<le> length (toString r) \<and> length (toString r) \<le> 6 \<and>
    \<not> isInteger r \<longrightarrow>
      new_EmployeeRegistration r = Inl RegistrationNotInteger)"
  by (auto simp: new_EmployeeRegistration_def validateRegistrationNumber_def Let_def)

theorem C6_first_failing_check_reported_witness:
  "num_le (Num (- 3 / 2)) (Num 0) \<and> length (toString (Num (- 3 / 2))) < 5 \<and>
   \<not> isInteger (Num (- 3 / 2)) \<and>
   new_EmployeeRegistration (Num (- 3 / 2)) = Inl RegistrationNotPositive \<and>
   \<not> num_le (Num (246913 / 2)) (Num 0) \<and> 6 < length (toString (Num (246913 / 2))) \<and>
   \<not> isInteger (Num (246913 / 2)) \<and>
   new_EmployeeRegistration (Num (246913 / 2)) = Inl RegistrationBadLength \<and>
   \<not> num_le (Num (2469 / 2)) (Num 0) \<and> length (toString (Num (2469 / 2))) = 6 \<and>
   \<not> isInteger (Num (2469 / 2)) \<and>
   new_EmployeeRegistration (Num (2469 / 2)) = Inl RegistrationNotInteger"
proof -
  have a: "num_le (Num (- 3 / 2)) (Num 0)" "toString (Num (- 3 / 2)) = ''-1.5''"
    "\<not> isInteger (Num (- 3 / 2))"
    by (simp_all add: num_le_def toString_1_5)
  have b: "\<not> num_le (Num (246913 / 2)) (Num 0)" "toString (Num (246913 / 2)) = ''123456.5''"
    "\<not> isInteger (Num (246913 / 2))"
    by (simp_all add: num_le_def toString_123456_5)
  have c: "\<not> num_le (Num (2469 / 2)) (Num 0)" "toString (Num (2469 / 2)) = ''1234.5''"
    "\<not> isInteger (Num (2469 / 2))"
    by (simp_all add: num_le_def toString_1234_5)
  have "new_EmployeeRegistration (Num (- 3 / 2)) = Inl RegistrationNotPositive"
    using C6_first_failing_check_reported[of "Num (- 3 / 2)"] a(1) by blast
  moreover have "new_EmployeeRegistration (Num (246913 / 2)) = Inl RegistrationBadLength"
    using C6_first_failing_check_reported[of "Num (246913 / 2)"] b by simp
  moreover have "new_EmployeeRegistration (Num (2469 / 2)) = Inl RegistrationNotInteger"
    using C6_first_failing_check_reported[of "Num (2469 / 2)"] c by simp
  ultimately show ?thesis using a b c by simp
qed
section \<open>Salary: the claims\<close>

subsection \<open>C1\<close>

text \<open>
  C1 as claimed: every salary a program can hold has an amount that is strictly positive and
  has at most two fractional digits. The constructor accepts NaN, which is neither negative
  nor zero and prints without a decimal point, and NaN is not greater than zero. It also
  accepts 1e-7, whose printed form \<^verbatim>\<open>1e-7\<close> has no decimal point although the number has
  seven fractional digits.
\<close>

theorem C1_counterexample:
  "reachable \<lparr>amount = NaN\<rparr> \<and> \<not> num_gt (getAmount \<lparr>amount = NaN\<rparr>) (Num 0) \<and>
   reachable \<lparr>amount = fl (1 / 10000000)\<rparr> \<and>
   toString (fl (1 / 10000000)) = ''1e-7'' \<and>
   fraction_digits (getAmount \<lparr>amount = fl (1 / 10000000)\<rparr>) = 7"
proof -
  have "reachable \<lparr>amount = NaN\<rparr>"
    using created[of NaN, OF _ new_Salary_NaN] by simp
  moreover have "reachable \<lparr>amount = fl (1 / 10000000)\<rparr>"
    using created[OF _ new_Salary_1em7] by simp
  ultimately show ?thesis
    by (simp add: getAmount_def num_gt_def literal_1em7 toString_1em7 shortest_1em7)
qed

text \<open>
  C1, amended: every salary a program can hold (from the constructor, \<open>addAmount\<close>,
  \<open>subtractAmount\<close> or \<open>increaseByPercentage\<close>) has passed the creation checks: its
  amount is not negative and not zero, so it is strictly positive unless it is NaN; and when
  the amount is printed in plain notation, it has at most two fractional digits.
\<close>

theorem C1_reachable_salaries_checked:
  assumes "reachable m"
  shows "\<not> num_lt (getAmount m) (Num 0) \<and> \<not> strict_eq (getAmount m) (Num 0) \<and>
         (getAmount m = NaN \<or> num_gt (getAmount m) (Num 0)) \<and>
         (plain_notation (getAmount m) \<longrightarrow> fraction_digits (getAmount m) \<le> 2)"
proof -
  from reachable_checked[OF assms] have v: "validateAmount (amount m) = Inr ()" by simp
  then have a: "\<not> num_lt (amount m) (Num 0)" "\<not> strict_eq (amount m) (Num 0)"
    and dp: "decimalPlaces (amount m) \<le> 2"
    by (simp_all add: validateAmount_Inr)
  have "fraction_digits (amount m) \<le> 2" if p: "plain_notation (amount m)"
  proof -
    from p obtain x where x: "amount m = Num x" by (cases "amount m") auto
    with a have "0 < x" by auto
    from decimalPlaces_fraction_digits[OF this] p dp x show ?thesis by simp
  qed
  with a positive_or_NaN[OF a] show ?thesis by (auto simp: getAmount_def)
qed

theorem C1_reachable_salaries_checked_witness:
  "reachable \<lparr>amount = Num 6000\<rparr> \<and> num_gt (getAmount \<lparr>amount = Num 6000\<rparr>) (Num 0) \<and>
   plain_notation (getAmount \<lparr>amount = Num 6000\<rparr>) \<and>
   fraction_digits (getAmount \<lparr>amount = Num 6000\<rparr>) \<le> 2"
proof -
  have "reachable \<lparr>amount = Num 5000\<rparr>"
    using created[OF _ new_Salary_5000] by (simp add: is_number_Num)
  then have r: "reachable \<lparr>amount = Num 6000\<rparr>"
    using added[OF _ _ addAmount_5000_1000] by (simp add: is_number_Num)
  have p: "plain_notation (getAmount \<lparr>amount = Num 6000\<rparr>)"
    by (simp add: getAmount_def shortest_n6000)
  from C1_reachable_salaries_checked[OF r] r p show ?thesis
    by (simp add: getAmount_def)
qed

subsection \<open>C2\<close>

text \<open>
  C2 as claimed: when the adjustment passes the creation checks, \<open>addAmount\<close> returns a
  new salary holding the sum. For a salary of 0.1 and an adjustment of 0.2, both valid, the
  sum is the binary64 number 0.30000000000000004, which the constructor rejects: the call
  fails with the too-precise error.
\<close>

theorem C2_counterexample:
  "new_Salary (fl (1 / 10)) = Inr \<lparr>amount = fl (1 / 10)\<rparr> \<and>
   validateAmount (fl (2 / 10)) = Inr () \<and>
   num_add (fl (1 / 10)) (fl (2 / 10)) = Num (1351079888211149 / 4503599627370496) \<and>
   addAmount \<lparr>amount = fl (1 / 10)\<rparr> (fl (2 / 10)) = Inl SalaryTooPrecise"
proof -
  have s: "num_add (fl (1 / 10)) (fl (2 / 10)) = Num (1351079888211149 / 4503599627370496)"
    by (simp add: literal_0_1 literal_0_2 fl_0_1_plus_0_2_sum)
  have "validateAmount (Num (1351079888211149 / 4503599627370496)) = Inl SalaryTooPrecise"
    using decimalPlaces_0_1_plus_0_2 by (simp add: validateAmount_def)
  then have "new_Salary (num_add (fl (1 / 10)) (fl (2 / 10))) = Inl SalaryTooPrecise"
    unfolding s by (simp add: new_Salary_def)
  then have "addAmount \<lparr>amount = fl (1 / 10)\<rparr> (fl (2 / 10)) = Inl SalaryTooPrecise"
    unfolding addAmount_def validateAmount_0_2 by (simp del: num_add.simps)
  with new_Salary_0_1 validateAmount_0_2 s show ?thesis by (simp del: num_add.simps)
qed

text \<open>
  C2, amended: \<open>addAmount\<close> fails with the creation errors when the adjustment is negative,
  zero, or (printed in plain notation) has more than two fractional digits; when the
  adjustment passes the creation checks, it returns what the constructor returns for the
  binary64 sum of the amount and the adjustment: a new salary holding the sum when the sum
  passes the creation checks, the constructor's error otherwise.
\<close>

theorem C2_addAmount:
  "(num_lt d (Num 0) \<longrightarrow> addAmount m d = Inl SalaryNegative) \<and>
   (strict_eq d (Num 0) \<longrightarrow> addAmount m d = Inl SalaryZero) \<and>
   (num_gt d (Num 0) \<and> plain_notation d \<and> 2 < fraction_digits d \<longrightarrow>
      addAmount m d = Inl SalaryTooPrecise) \<and>
   (validateAmount d = Inr () \<longrightarrow>
      addAmount m d =
        (case validateAmount (num_add (getAmount m) d) of
           Inl e \<Rightarrow> Inl e
         | Inr _ \<Rightarrow> Inr \<lparr>amount = num_add (getAmount m) d\<rparr>))"
proof -
  have "addAmount m d = Inl SalaryZero" if "strict_eq d (Num 0)"
  proof -
    from that have "d = Num 0" by (cases d) auto
    then show ?thesis by (simp add: addAmount_def validateAmount_def)
  qed
  moreover have "addAmount m d = Inl SalaryTooPrecise"
    if "num_gt d (Num 0)" "plain_notation d" "2 < fraction_digits d"
  proof -
    from that(2) obtain x where x: "d = Num x" by (cases d) auto
    with that(1) have x0: "0 < x" by (simp add: num_gt_def)
    from decimalPlaces_fraction_digits[OF x0] that(2,3) have "2 < decimalPlaces d"
      unfolding x by simp
    moreover have "\<not> num_lt d (Num 0)" "\<not> strict_eq d (Num 0)" using x x0 by simp_all
    ultimately show ?thesis by (simp add: addAmount_def validateAmount_def)
  qed
  ultimately show ?thesis
    by (auto simp: addAmount_def validateAmount_def new_Salary_def getAmount_def split: sum.splits)
qed

theorem C2_addAmount_witness:
  "num_lt (Num (- 5)) (Num 0) \<and>
   addAmount \<lparr>amount = Num 5000\<rparr> (Num (- 5)) = Inl SalaryNegative \<and>
   strict_eq (Num 0) (Num 0) \<and>
   addAmount \<lparr>amount = Num 5000\<rparr> (Num 0) = Inl SalaryZero \<and>
   num_gt (fl (10555 / 1000)) (Num 0) \<and> plain_notation (fl (10555 / 1000)) \<and>
   2 < fraction_digits (fl (10555 / 1000)) \<and>
   addAmount \<lparr>amount = Num 5000\<rparr> (fl (10555 / 1000)) = Inl SalaryTooPrecise \<and>
   validateAmount (Num 1000) = Inr () \<and>
   addAmount \<lparr>amount = Num 5000\<rparr> (Num 1000) = Inr \<lparr>amount = Num 6000\<rparr>"
proof -
  let ?m = "\<lparr>amount = Num 5000\<rparr>"
  have 1: "num_lt (Num (- 5)) (Num 0)" by simp
  have 2: "strict_eq (Num 0) (Num 0)" by simp
  have 3: "num_gt (fl (10555 / 1000)) (Num 0) \<and> plain_notation (fl (10555 / 1000)) \<and>
      2 < fraction_digits (fl (10555 / 1000))"
    by (simp add: literal_10_555 num_gt_def shortest_10_555)
  have 4: "validateAmount (num_add (getAmount ?m) (Num 1000)) = Inr ()"
    by (simp add: getAmount_def validateAmount_Inr decimalPlaces_6000)
  have "addAmount ?m (Num (- 5)) = Inl SalaryNegative"
    using C2_addAmount[of "Num (- 5)" ?m] 1 by blast
  moreover have "addAmount ?m (Num 0) = Inl SalaryZero"
    using C2_addAmount[of "Num 0" ?m] 2 by blast
  moreover have "addAmount ?m (fl (10555 / 1000)) = Inl SalaryTooPrecise"
    using C2_addAmount[of "fl (10555 / 1000)" ?m] 3 by blast
  moreover have "addAmount ?m (Num 1000) = Inr \<lparr>amount = Num 6000\<rparr>"
    using C2_addAmount[of "Num 1000" ?m] validateAmount_1000 4 by (simp add: getAmount_def)
  ultimately show ?thesis using 1 2 3 validateAmount_1000 by simp
qed

subsection \<open>C3\<close>

text \<open>
  C3 as claimed: when the adjustment is accepted and the difference is strictly positive,
  \<open>subtractAmount\<close> returns a new salary holding the difference. For a salary of 0.3 and an
  adjustment of 0.1 the difference is the binary64 number 0.19999999999999998, which is
  strictly positive and which the constructor rejects: the call fails with the too-precise
  error.
\<close>

theorem C3_counterexample:
  "new_Salary (fl (3 / 10)) = Inr \<lparr>amount = fl (3 / 10)\<rparr> \<and>
   validateAdjustment (fl (1 / 10)) = Inr () \<and>
   num_sub (fl (3 / 10)) (fl (1 / 10)) = Num (7205759403792793 / 36028797018963968) \<and>
   num_gt (num_sub (fl (3 / 10)) (fl (1 / 10))) (Num 0) \<and>
   subtractAmount \<lparr>amount = fl (3 / 10)\<rparr> (fl (1 / 10)) = Inl SalaryTooPrecise"
proof -
  have s: "num_sub (fl (3 / 10)) (fl (1 / 10)) = Num (7205759403792793 / 36028797018963968)"
    by (simp add: literal_0_3 literal_0_1 num_sub_def fl_0_3_minus_0_1_difference)
  have "validateAmount (Num (7205759403792793 / 36028797018963968)) = Inl SalaryTooPrecise"
    using decimalPlaces_0_3_minus_0_1 by (simp add: validateAmount_def)
  then have "new_Salary (num_sub (fl (3 / 10)) (fl (1 / 10))) = Inl SalaryTooPrecise"
    unfolding s by (simp add: new_Salary_def)
  then have "subtractAmount \<lparr>amount = fl (3 / 10)\<rparr> (fl (1 / 10)) = Inl SalaryTooPrecise"
    unfolding subtractAmount_def validateAdjustment_0_1 Let_def by (simp add: s)
  with new_Salary_0_3 validateAdjustment_0_1 s show ?thesis by (simp add: num_gt_def)
qed

text \<open>
  C3, amended: \<open>subtractAmount\<close> rejects a negative adjustment and an adjustment that
  (printed in plain notation) has more than two fractional digits, and accepts zero, which
  gives back the same amount. For an accepted adjustment it fails with the negative-salary
  error when the binary64 difference is negative; when the difference is strictly positive
  it returns a new salary holding it if the printed difference has at most two decimal
  places, and fails with the too-precise error otherwise.
\<close>

theorem C3_subtractAmount:
  assumes "reachable m"
  shows "(num_lt d (Num 0) \<longrightarrow> subtractAmount m d = Inl AdjustmentNegative) \<and>
   (num_gt d (Num 0) \<and> plain_notation d \<and> 2 < fraction_digits d \<longrightarrow>
      subtractAmount m d = Inl AdjustmentTooPrecise) \<and>
   subtractAmount m (Num 0) = Inr m \<and>
   (validateAdjustment d = Inr () \<and> num_lt (num_sub (getAmount m) d) (Num 0) \<longrightarrow>
      subtractAmount m d = Inl SalaryNegative) \<and>
   (validateAdjustment d = Inr () \<and> num_gt (num_sub (getAmount m) d) (Num 0) \<longrightarrow>
      subtractAmount m d =
        (if decimalPlaces (num_sub (getAmount m) d) \<le> 2
         then Inr \<lparr>amount = num_sub (getAmount m) d\<rparr> else Inl SalaryTooPrecise))"
proof -
  from reachable_checked[OF assms]
  have v: "validateAmount (amount m) = Inr ()" and n: "is_number (amount m)" by simp_all
  have "subtractAmount m d = Inl AdjustmentTooPrecise"
    if "num_gt d (Num 0)" "plain_notation d" "2 < fraction_digits d"
  proof -
    from that(2) obtain x where x: "d = Num x" by (cases d) auto
    with that(1) have x0: "0 < x" by (simp add: num_gt_def)
    from decimalPlaces_fraction_digits[OF x0] that(2,3) have "2 < decimalPlaces d"
      unfolding x by simp
    moreover have "\<not> num_lt d (Num 0)" using x x0 by simp
    ultimately show ?thesis by (simp add: subtractAmount_def validateAdjustment_def)
  qed
  moreover have "subtractAmount m (Num 0) = Inr m"
  proof -
    have "\<not> num_lt (amount m) (Num 0)" using v by (simp add: validateAmount_Inr)
    then show ?thesis
      unfolding subtractAmount_def validateAdjustment_zero Let_def num_sub_zero[OF n]
      using v by (simp add: new_Salary_def)
  qed
  moreover have "subtractAmount m d =
        (if decimalPlaces (num_sub (getAmount m) d) \<le> 2
         then Inr \<lparr>amount = num_sub (getAmount m) d\<rparr> else Inl SalaryTooPrecise)"
    if "validateAdjustment d = Inr ()" "num_gt (num_sub (getAmount m) d) (Num 0)"
  proof -
    define r where "r = num_sub (amount m) d"
    from that(2) have "num_lt (Num 0) r" by (simp add: num_gt_def r_def getAmount_def)
    then have "\<not> num_lt r (Num 0)" "\<not> strict_eq r (Num 0)" by (cases r; simp)+
    then show ?thesis
      unfolding subtractAmount_def that(1) Let_def getAmount_def r_def[symmetric]
      by (simp add: new_Salary_def validateAmount_def)
  qed
  ultimately show ?thesis
    by (auto simp: subtractAmount_def validateAdjustment_def getAmount_def)
qed

theorem C3_subtractAmount_witness:
  "reachable \<lparr>amount = Num 5000\<rparr> \<and>
   num_lt (Num (- 5)) (Num 0) \<and>
   subtractAmount \<lparr>amount = Num 5000\<rparr> (Num (- 5)) = Inl AdjustmentNegative \<and>
   num_gt (fl (10555 / 1000)) (Num 0) \<and> plain_notation (fl (10555 / 1000)) \<and>
   2 < fraction_digits (fl (10555 / 1000)) \<and>
   subtractAmount \<lparr>amount = Num 5000\<rparr> (fl (10555 / 1000)) = Inl AdjustmentTooPrecise \<and>
   subtractAmount \<lparr>amount = Num 5000\<rparr> (Num 0) = Inr \<lparr>amount = Num 5000\<rparr> \<and>
   validateAdjustment (Num 6000) = Inr () \<and>
   num_lt (num_sub (getAmount \<lparr>amount = Num 5000\<rparr>) (Num 6000)) (Num 0) \<and>
   subtractAmount \<lparr>amount = Num 5000\<rparr> (Num 6000) = Inl SalaryNegative \<and>
   validateAdjustment (Num 1000) = Inr () \<and>
   num_gt (num_sub (getAmount \<lparr>amount = Num 5000\<rparr>) (Num 1000)) (Num 0) \<and>
   subtractAmount \<lparr>amount = Num 5000\<rparr> (Num 1000) = Inr \<lparr>amount = Num 4000\<rparr>"
proof -
  let ?m = "\<lparr>amount = Num 5000\<rparr>"
  have r: "reachable ?m"
    using created[OF _ new_Salary_5000] by (simp add: is_number_Num)
  have 1: "num_lt (Num (- 5)) (Num 0)" by simp
  have 2: "num_gt (fl (10555 / 1000)) (Num 0) \<and> plain_notation (fl (10555 / 1000)) \<and>
      2 < fraction_digits (fl (10555 / 1000))"
    by (simp add: literal_10_555 num_gt_def shortest_10_555)
  have d6: "num_sub (getAmount ?m) (Num 6000) = Num (- 1000)"
    by (simp add: getAmount_def num_sub_def fl_neg_1000)
  have d1: "num_sub (getAmount ?m) (Num 1000) = Num 4000"
    by (simp add: getAmount_def num_sub_def)
  have 3: "num_lt (num_sub (getAmount ?m) (Num 6000)) (Num 0)" unfolding d6 by simp
  have 4: "num_gt (num_sub (getAmount ?m) (Num 1000)) (Num 0)"
    unfolding d1 by (simp add: num_gt_def)
  note t = C3_subtractAmount[OF r]
  have "subtractAmount ?m (Num (- 5)) = Inl AdjustmentNegative"
    using t[of "Num (- 5)"] 1 by blast
  moreover have "subtractAmount ?m (fl (10555 / 1000)) = Inl AdjustmentTooPrecise"
    using t[of "fl (10555 / 1000)"] 2 by blast
  moreover have "subtractAmount ?m (Num 0) = Inr ?m"
    using t[of "Num 0"] by blast
  moreover have "subtractAmount ?m (Num 6000) = Inl SalaryNegative"
    using t[of "Num 6000"] validateAdjustment_6000 3 by blast
  moreover have "subtractAmount ?m (Num 1000) = Inr \<lparr>amount = Num 4000\<rparr>"
    using t[of "Num 1000"] validateAdjustment_1000 4 unfolding d1
    by (simp add: decimalPlaces_4000)
  ultimately show ?thesis
    using r 1 2 3 4 validateAdjustment_6000 validateAdjustment_1000 by simp
qed

subsection \<open>C7\<close>

text \<open>
  C7 as claimed: for a percentage above 0 and up to 100, \<open>increaseByPercentage\<close> returns a
  new salary holding the increased amount. For a salary of 1 and a percentage of 0.5 the
  increased amount is 1.005, which the constructor rejects: the call fails with the
  too-precise error.
\<close>

theorem C7_counterexample:
  "new_Salary (Num 1) = Inr \<lparr>amount = Num 1\<rparr> \<and>
   num_gt (fl (1 / 2)) (Num 0) \<and> num_le (fl (1 / 2)) (Num 100) \<and>
   toString (num_add (Num 1) (num_mul (Num 1) (num_div (fl (1 / 2)) (Num 100)))) = ''1.005'' \<and>
   increaseByPercentage \<lparr>amount = Num 1\<rparr> (fl (1 / 2)) = Inl SalaryTooPrecise"
proof -
  have h: "fl (1 / 2) = Num (1 / 2)" using fl_exact[of 1 "- 1"] by simp
  have c: "num_gt (fl (1 / 2)) (Num 0)" "num_le (fl (1 / 2)) (Num 100)"
    by (simp_all add: h num_gt_def num_le_def)
  then have c': "\<not> num_le (fl (1 / 2)) (Num 0)" "\<not> num_gt (fl (1 / 2)) (Num 100)"
    by (simp_all add: h num_gt_def num_le_def)
  have "new_Salary (Num (1131529406376837 / 1125899906842624)) = Inl SalaryTooPrecise"
    by (simp add: new_Salary_def validateAmount_def decimalPlaces_1_005)
  then have "increaseByPercentage \<lparr>amount = Num 1\<rparr> (fl (1 / 2)) = Inl SalaryTooPrecise"
    unfolding increaseByPercentage_def Let_def using c' increase_1_by_half
    by (simp del: num_add.simps num_mul.simps num_div.simps)
  moreover have "toString (num_add (Num 1) (num_mul (Num 1) (num_div (fl (1 / 2)) (Num 100))))
      = ''1.005''"
    unfolding increase_1_by_half by (simp add: toString_1_005)
  ultimately show ?thesis using new_Salary_1 c by simp
qed

text \<open>
  C7, amended: \<open>increaseByPercentage\<close> fails with the not-positive error when the percentage
  is zero or below and with the out-of-range error when it is above 100; for a percentage
  above 0 and up to 100 it returns what the constructor returns for the binary64 value of
  \<open>amount + amount * (percentage / 100)\<close>: a new salary when that value passes the
  creation checks, the constructor's error otherwise. For 1000 and 10 percent the result is
  a salary of 1100; 0 percent and 101 percent fail.
\<close>

theorem C7_increaseByPercentage:
  "(num_le p (Num 0) \<longrightarrow> increaseByPercentage m p = Inl PercentageNotPositive) \<and>
   (num_gt p (Num 100) \<longrightarrow> increaseByPercentage m p = Inl PercentageOutOfRange) \<and>
   (num_gt p (Num 0) \<and> num_le p (Num 100) \<longrightarrow>
      increaseByPercentage m p =
        new_Salary (num_add (getAmount m) (num_mul (getAmount m) (num_div p (Num 100)))))"
proof -
  have "\<not> num_le p (Num 0)" if "num_gt p (Num 100)"
    using that by (cases p) (auto simp: num_gt_def num_le_def)
  moreover have "\<not> num_le p (Num 0) \<and> \<not> num_gt p (Num 100)"
    if "num_gt p (Num 0)" "num_le p (Num 100)"
    using that by (cases p) (auto simp: num_gt_def num_le_def)
  ultimately show ?thesis
    by (auto simp: increaseByPercentage_def Let_def getAmount_def)
qed

theorem C7_increaseByPercentage_witness:
  "num_gt (Num 10) (Num 0) \<and> num_le (Num 10) (Num 100) \<and>
   increaseByPercentage \<lparr>amount = Num 1000\<rparr> (Num 10) = Inr \<lparr>amount = Num 1100\<rparr> \<and>
   num_le (Num 0) (Num 0) \<and>
   increaseByPercentage \<lparr>amount = Num 1000\<rparr> (Num 0) = Inl PercentageNotPositive \<and>
   num_gt (Num 101) (Num 100) \<and>
   increaseByPercentage \<lparr>amount = Num 1000\<rparr> (Num 101) = Inl PercentageOutOfRange"
proof -
  let ?m = "\<lparr>amount = Num 1000\<rparr>"
  have 1: "num_gt (Num 10) (Num 0) \<and> num_le (Num 10) (Num 100)"
    by (simp add: num_gt_def num_le_def)
  have 2: "num_le (Num 0) (Num 0)" by (simp add: num_le_def)
  have 3: "num_gt (Num 101) (Num 100)" by (simp add: num_gt_def)
  have "increaseByPercentage ?m (Num 10)
      = new_Salary (num_add (getAmount ?m) (num_mul (getAmount ?m) (num_div (Num 10) (Num 100))))"
    using C7_increaseByPercentage[of "Num 10" ?m] 1 by blast
  then have "increaseByPercentage ?m (Num 10) = Inr \<lparr>amount = Num 1100\<rparr>"
    unfolding getAmount_def using increase_1000_by_10 new_Salary_1100
    by (simp del: num_add.simps num_mul.simps num_div.simps)
  moreover have "increaseByPercentage ?m (Num 0) = Inl PercentageNotPositive"
    using C7_increaseByPercentage[of "Num 0" ?m] 2 by blast
  moreover have "increaseByPercentage ?m (Num 101) = Inl PercentageOutOfRange"
    using C7_increaseByPercentage[of "Num 101" ?m] 3 by blast
  ultimately show ?thesis using 1 2 3 by simp
qed

subsection \<open>C8\<close>

lemma construct_Salary_new_Salary:
  "construct_Salary \<sigma> a =
     (case new_Salary a of Inl e \<Rightarrow> (\<sigma>, Inl e) | Inr s \<Rightarrow> (\<sigma> @ [s], Inr (length \<sigma>)))"
  by (simp add: construct_Salary_def new_Salary_def split: sum.splits)

lemma addAmount_at_addAmount:
  "addAmount_at \<sigma> this d =
     (case addAmount (\<sigma> ! this) d of
        Inl e \<Rightarrow> (\<sigma>, Inl e) | Inr s \<Rightarrow> (\<sigma> @ [s], Inr (length \<sigma>)))"
  by (simp add: addAmount_at_def addAmount_def construct_Salary_new_Salary split: sum.splits)

lemma subtractAmount_at_subtractAmount:
  "subtractAmount_at \<sigma> this d =
     (case subtractAmount (\<sigma> ! this) d of
        Inl e \<Rightarrow> (\<sigma>, Inl e) | Inr s \<Rightarrow> (\<sigma> @ [s], Inr (length \<sigma>)))"
  by (simp add: subtractAmount_at_def subtractAmount_def construct_Salary_new_Salary Let_def
      split: sum.splits)

lemma increaseByPercentage_at_increaseByPercentage:
  "increaseByPercentage_at \<sigma> this p =
     (case increaseByPercentage (\<sigma> ! this) p of
        Inl e \<Rightarrow> (\<sigma>, Inl e) | Inr s \<Rightarrow> (\<sigma> @ [s], Inr (length \<sigma>)))"
  by (simp add: increaseByPercentage_at_def increaseByPercentage_def
      construct_Salary_new_Salary Let_def split: sum.splits)

lemma construct_Salary_frame:
  "r < length \<sigma> \<Longrightarrow> fst (construct_Salary \<sigma> a) ! r = \<sigma> ! r"
  by (simp add: construct_Salary_def nth_append split: sum.splits)

text \<open>
  C8: no deriving method changes the salary it is called on. After \<open>addAmount\<close>,
  \<open>subtractAmount\<close> or \<open>increaseByPercentage\<close> on a salary in the store, whether the call
  returns a new salary or fails, \<open>getAmount\<close> of the receiver returns what it returned
  before. In particular, after a salary of 5000 is created and 1000 is added to it, the new
  salary reports 6000 and the first one still reports 5000.
\<close>

theorem C8_receiver_unchanged:
  assumes "this < length \<sigma>"
  shows "getAmount_at (fst (addAmount_at \<sigma> this d)) this = getAmount_at \<sigma> this \<and>
         getAmount_at (fst (subtractAmount_at \<sigma> this d)) this = getAmount_at \<sigma> this \<and>
         getAmount_at (fst (increaseByPercentage_at \<sigma> this d)) this = getAmount_at \<sigma> this"
  using assms construct_Salary_frame[OF assms]
  by (simp add: getAmount_at_def addAmount_at_def subtractAmount_at_def
      increaseByPercentage_at_def Let_def split: sum.splits)

theorem C8_receiver_unchanged_witness:
  "construct_Salary [] (Num 5000) = ([\<lparr>amount = Num 5000\<rparr>], Inr 0) \<and>
   (0::nat) < length [\<lparr>amount = Num 5000\<rparr>] \<and>
   addAmount_at [\<lparr>amount = Num 5000\<rparr>] 0 (Num 1000)
     = ([\<lparr>amount = Num 5000\<rparr>, \<lparr>amount = Num 6000\<rparr>], Inr 1) \<and>
   getAmount_at (fst (addAmount_at [\<lparr>amount = Num 5000\<rparr>] 0 (Num 1000))) 1 = Num 6000 \<and>
   getAmount_at (fst (addAmount_at [\<lparr>amount = Num 5000\<rparr>] 0 (Num 1000))) 0 = Num 5000"
proof -
  let ?\<sigma> = "[\<lparr>amount = Num 5000\<rparr>]"
  have c: "construct_Salary [] (Num 5000) = (?\<sigma>, Inr 0)"
    by (simp add: construct_Salary_new_Salary new_Salary_5000)
  have a: "addAmount_at ?\<sigma> 0 (Num 1000) = ([\<lparr>amount = Num 5000\<rparr>, \<lparr>amount = Num 6000\<rparr>], Inr 1)"
    by (simp add: addAmount_at_addAmount addAmount_5000_1000)
  have l: "(0::nat) < length ?\<sigma>" by simp
  have "getAmount_at (fst (addAmount_at ?\<sigma> 0 (Num 1000))) 0 = Num 5000"
    using C8_receiver_unchanged[OF l, of "Num 1000"] by (simp add: getAmount_at_def)
  moreover have "getAmount_at (fst (addAmount_at ?\<sigma> 0 (Num 1000))) 1 = Num 6000"
    unfolding a by (simp add: getAmount_at_def)
  ultimately show ?thesis using c a by simp
qed

subsection \<open>C9\<close>

lemma new_Salary_toJSON: "new_Salary a = Inr m \<Longrightarrow> Salary_toJSON m = a"
  by (auto simp: new_Salary_Inr Salary_toJSON_def)

lemma plain_two_digits_accepted:
  assumes "num_gt a (Num 0)" "plain_notation a" "fraction_digits a \<le> 2"
  shows "new_Salary a = Inr \<lparr>amount = a\<rparr>"
proof -
  from assms(2) obtain x where x: "a = Num x" by (cases a) auto
  with assms(1) have x0: "0 < x" by (simp add: num_gt_def)
  from decimalPlaces_fraction_digits[OF x0] assms(2,3) have "decimalPlaces a \<le> 2"
    unfolding x by simp
  then show ?thesis using x x0 by (simp add: new_Salary_Inr validateAmount_Inr)
qed

text \<open>
  C9: for every amount above zero with at most two fractional digits, the constructor
  followed by \<open>toJSON\<close> gives the amount back. The constructor does not accept every such
  amount: 1.5e21 is above zero and has no fractional digit, but it prints as
  \<^verbatim>\<open>1.5e+21\<close>, where five characters follow the decimal point, and the constructor
  rejects it with the too-precise error.
\<close>

theorem C9_large_amount_rejected:
  "num_gt (Num 1500000000000000000000) (Num 0) \<and> is_number (Num 1500000000000000000000) \<and>
   fraction_digits (Num 1500000000000000000000) = 0 \<and>
   toString (Num 1500000000000000000000) = ''1.5e+21'' \<and>
   decimalPlaces (Num 1500000000000000000000) = 5 \<and>
   new_Salary (Num 1500000000000000000000) = Inl SalaryTooPrecise"
  by (simp add: num_gt_def is_number_Num fl_1_5e21 shortest_1_5e21 toString_1_5e21
      decimalPlaces_1_5e21 new_Salary_def validateAmount_def)

subsection \<open>C10\<close>

text \<open>
  C10 as claimed: for every validly constructed salary, subtracting its own amount fails
  with the zero error. The constructor accepts Infinity; Infinity minus Infinity is NaN,
  which is not below zero and which the constructor accepts: the call returns a salary
  holding NaN.
\<close>

theorem C10_counterexample:
  "new_Salary PosInfinity = Inr \<lparr>amount = PosInfinity\<rparr> \<and>
   reachable \<lparr>amount = PosInfinity\<rparr> \<and>
   subtractAmount \<lparr>amount = PosInfinity\<rparr> (getAmount \<lparr>amount = PosInfinity\<rparr>)
     = Inr \<lparr>amount = NaN\<rparr>"
proof -
  have "reachable \<lparr>amount = PosInfinity\<rparr>"
    using created[of PosInfinity, OF _ new_Salary_PosInfinity] by simp
  moreover have "validateAdjustment PosInfinity = Inr ()"
    by (simp add: validateAdjustment_Inr decimalPlaces_PosInfinity)
  ultimately show ?thesis
    by (simp add: new_Salary_PosInfinity subtractAmount_def getAmount_def num_sub_def
        new_Salary_NaN)
qed

text \<open>
  C10, amended: for every salary a program can hold whose amount is finite, subtracting its
  own amount fails: the difference is zero, which passes the negative-result test of
  \<open>subtractAmount\<close> and is rejected by the constructor with the zero error
  (\<^verbatim>\<open>Salary cannot be zero\<close>), not the negative error.
\<close>

theorem C10_subtract_own_amount:
  assumes "reachable m" and "isFinite (getAmount m)"
  shows "validateAdjustment (getAmount m) = Inr () \<and>
         num_sub (getAmount m) (getAmount m) = Num 0 \<and>
         \<not> num_lt (num_sub (getAmount m) (getAmount m)) (Num 0) \<and>
         subtractAmount m (getAmount m) = Inl SalaryZero \<and>
         SalaryZero = Error ''Salary cannot be zero'' \<and> SalaryZero \<noteq> SalaryNegative"
proof -
  from assms(2) obtain x where x: "amount m = Num x"
    by (cases "amount m") (auto simp: getAmount_def)
  from reachable_checked[OF assms(1)] have "validateAmount (amount m) = Inr ()" by simp
  then have v: "validateAdjustment (amount m) = Inr ()"
    by (simp add: validateAmount_Inr validateAdjustment_Inr)
  have z: "num_sub (amount m) (amount m) = Num 0" by (simp add: x num_sub_def)
  have "subtractAmount m (amount m) = Inl SalaryZero"
    unfolding subtractAmount_def v Let_def z by (simp add: new_Salary_def validateAmount_def)
  with v z show ?thesis by (simp add: getAmount_def SalaryZero_def SalaryNegative_def)
qed

theorem C10_subtract_own_amount_witness:
  "reachable \<lparr>amount = Num 5000\<rparr> \<and> isFinite (getAmount \<lparr>amount = Num 5000\<rparr>) \<and>
   subtractAmount \<lparr>amount = Num 5000\<rparr> (Num 5000) = Inl SalaryZero"
proof -
  have r: "reachable \<lparr>amount = Num 5000\<rparr>"
    using created[OF _ new_Salary_5000] by (simp add: is_number_Num)
  have f: "isFinite (getAmount \<lparr>amount = Num 5000\<rparr>)" by (simp add: getAmount_def)
  from C10_subtract_own_amount[OF r f] r f show ?thesis by (simp add: getAmount_def)
qed

end
